theory Spec2Isabelle
  imports Complex_Main
begin

section \<open>Bounded channels\<close>

text \<open>
  The two channels are \<^verbatim>\<open>multiprocessing.Queue(maxsize=n)\<close> objects. A queue holds its
  pending items in arrival order; \<^verbatim>\<open>put_nowait\<close> raises \<^verbatim>\<open>queue.Full\<close> when \<open>maxsize\<close>
  items are pending (a \<open>maxsize\<close> of 0 means no bound), \<^verbatim>\<open>get_nowait\<close> raises
  \<^verbatim>\<open>queue.Empty\<close> when nothing is pending. Wall-clock readings (\<^verbatim>\<open>time.time()\<close>) are
  modelled as real numbers of seconds.
\<close>

datatype queue_error = Full | Empty

record 'a bqueue =
  maxsize :: nat
  items :: "'a list"

definition full :: "'a bqueue \<Rightarrow> bool" where
  "full q = (0 < maxsize q \<and> maxsize q \<le> length (items q))"

definition put_nowait :: "'a bqueue \<Rightarrow> 'a \<Rightarrow> queue_error + 'a bqueue" where
  "put_nowait q x = (if full q then Inl Full else Inr (q\<lparr>items := items q @ [x]\<rparr>))"

definition get_nowait :: "'a bqueue \<Rightarrow> queue_error + ('a \<times> 'a bqueue)" where
  "get_nowait q = (case items q of [] \<Rightarrow> Inl Empty | x # xs \<Rightarrow> Inr (x, q\<lparr>items := xs\<rparr>))"

text \<open>
  Every publish of the worker has the shape
  \<^verbatim>\<open>try: q.put_nowait(item) except queue.Full: pass\<close>.
\<close>

definition put_nowait_or_pass :: "'a bqueue \<Rightarrow> 'a \<Rightarrow> 'a bqueue" where
  "put_nowait_or_pass q x = (case put_nowait q x of Inl _ \<Rightarrow> q | Inr q' \<Rightarrow> q')"

section \<open>Strings\<close>

text \<open>\<^verbatim>\<open>str.lower()\<close> on ASCII text, \<^verbatim>\<open>str.startswith\<close> and the substring test.\<close>

definition lower_char :: "char \<Rightarrow> char" where
  "lower_char c =
     (let n = (of_char c :: nat) in if 65 \<le> n \<and> n \<le> 90 then char_of (n + 32) else c)"

definition lower :: "string \<Rightarrow> string" where
  "lower s = map lower_char s"

fun startswith :: "string \<Rightarrow> string \<Rightarrow> bool" where
  "startswith s [] = True"
| "startswith [] (p # ps) = False"
| "startswith (c # cs) (p # ps) = (c = p \<and> startswith cs ps)"

text \<open>\<open>str_in sub s\<close> is Python's \<^verbatim>\<open>sub in s\<close> on strings.\<close>

fun str_in :: "string \<Rightarrow> string \<Rightarrow> bool" where
  "str_in sub [] = (sub = [])"
| "str_in sub (c # cs) = (startswith (c # cs) sub \<or> str_in sub cs)"

section \<open>Records read from the device\<close>

text \<open>
  The decoder (\<^verbatim>\<open>witrnhid\<close>) is an external collaborator; a decoded packet is modelled by
  the outcome of every accessor expression the worker evaluates on it. For a
  \<^verbatim>\<open>general\<close> packet each field holds the outcome of
  \<^verbatim>\<open>float(pkg[name].value()[:-1])\<close>: \<open>None\<close> when the expression raises. For a
  \<^verbatim>\<open>pd\<close> packet \<open>SOP\<close> is the outcome of \<^verbatim>\<open>pkg["SOP*"].value()\<close> (\<open>Inl\<close> the text of the
  exception it raises), and the header fields are the outcomes of
  \<^verbatim>\<open>pkg["Message Header"][k].value()\<close>, \<open>None\<close> when the access raises; \<open>is_pdo\<close> and
  \<open>is_rdo\<close> are the values of the decoder's recognizers on the packet, and \<open>payload\<close> the
  raw bytes, which the worker never looks at.
\<close>

record general_pkg =
  f_Current :: "real option"
  f_VBus :: "real option"
  f_CC1 :: "real option"
  f_CC2 :: "real option"
  f_Dp :: "real option"
  f_Dn :: "real option"

record pd_pkg =
  SOP :: "string + string"
  Header4 :: "string option"
  Header3 :: "string option"
  Header5 :: "string option"
  Header_Message_Type :: "string option"
  is_pdo :: bool
  is_rdo :: bool
  payload :: "nat list"

datatype pkg = General general_pkg | Pd pd_pkg | Unknown string

fun field :: "pkg \<Rightarrow> string" where
  "field (General g) = ''general''"
| "field (Pd p) = ''pd''"
| "field (Unknown s) = s"

section \<open>Items carried by the channels\<close>

record iv_data =
  iv_timestamp :: real
  iv_voltage :: real
  iv_current :: real
  iv_power :: real
  iv_cc1 :: real
  iv_cc2 :: real
  iv_dp :: real
  iv_dn :: real
  update_plot :: bool
  update_iv_info :: bool

record pd_data =
  pd_timestamp :: string
  pd_time_sec :: real
  pd_sop :: string
  pd_rev :: "string option"
  pd_ppr :: "string option"
  pd_pdr :: "string option"
  pd_msg_type :: "string option"
  pd_pkg_data :: pkg
  pd_is_pdo :: bool
  pd_is_rdo :: bool
  pd_last_pdo :: "pkg option"
  pd_last_rdo :: "pkg option"

datatype data_msg = PdMsg pd_data | ErrorMsg string

section \<open>The acquisition worker\<close>

text \<open>
  One polling iteration sees: whether the stop event is set at the loop head, the outcome
  of \<^verbatim>\<open>k2.read_data(); k2.auto_unpack()\<close> (\<open>Inl\<close> the text of the exception raised,
  \<open>Inr\<close> the timestamp string and the packet), the two clock readings \<^verbatim>\<open>current_time\<close>
  and \<^verbatim>\<open>now\<close>, and the value of the shared pause flag.
\<close>

record tick =
  stop_is_set :: bool
  read_data :: "string + (string \<times> pkg)"
  current_time :: real
  now :: real
  pause_value :: int

text \<open>
  The worker's locals and the two queues it was given. \<open>exited\<close> records that the loop
  was left, \<open>sleeps\<close> counts the calls of \<^verbatim>\<open>time.sleep(0.01)\<close>.
\<close>

record worker =
  w_last_pdo :: "pkg option"
  w_last_rdo :: "pkg option"
  last_general_timestamp :: real
  data_queue :: "data_msg bqueue"
  iv_queue :: "iv_data bqueue"
  exited :: bool
  sleeps :: nat

definition or_zero :: "real option \<Rightarrow> real" where
  "or_zero r = (case r of None \<Rightarrow> 0 | Some x \<Rightarrow> x)"

text \<open>The handler \<^verbatim>\<open>except Exception as e\<close> of the loop body.\<close>

definition on_exception :: "worker \<Rightarrow> string \<Rightarrow> worker" where
  "on_exception w e =
     (let err_text = lower e in
      if str_in ''read error'' err_text
      then w\<lparr>data_queue := put_nowait_or_pass (data_queue w) (ErrorMsg ''device_disconnected''),
              exited := True\<rparr>
      else w\<lparr>sleeps := Suc (sleeps w)\<rparr>)"

definition rev_of :: "string option \<Rightarrow> string option" where
  "rev_of h = (case h of None \<Rightarrow> None
               | Some v \<Rightarrow> (let r = drop 4 v in if r = ''rved'' then None else Some r))"

text \<open>The rate limit of the summary: \<^verbatim>\<open>now - last_general_timestamp >= 0.1\<close>.\<close>

definition summary_due :: "worker \<Rightarrow> tick \<Rightarrow> bool" where
  "summary_due w t = (now t - last_general_timestamp w \<ge> 0.1)"

definition on_general :: "worker \<Rightarrow> tick \<Rightarrow> general_pkg \<Rightarrow> worker" where
  "on_general w t g =
     (let current = or_zero (f_Current g);
          voltage = or_zero (f_VBus g);
          power = \<bar>current * voltage\<bar>;
          cc1 = or_zero (f_CC1 g);
          cc2 = or_zero (f_CC2 g);
          dp = or_zero (f_Dp g);
          dn = or_zero (f_Dn g);
          upd = summary_due w t;
          w1 = w\<lparr>iv_queue := put_nowait_or_pass (iv_queue w)
                  \<lparr>iv_timestamp = current_time t, iv_voltage = voltage, iv_current = current,
                   iv_power = power, iv_cc1 = cc1, iv_cc2 = cc2, iv_dp = dp, iv_dn = dn,
                   update_plot = True, update_iv_info = upd\<rparr>\<rparr>
      in if upd then w1\<lparr>last_general_timestamp := now t\<rparr> else w1)"

definition on_pd :: "worker \<Rightarrow> tick \<Rightarrow> string \<Rightarrow> pd_pkg \<Rightarrow> worker" where
  "on_pd w t timestamp_str p =
     (if pause_value t = 1 then w
      else case SOP p of
        Inl e \<Rightarrow> on_exception w e
      | Inr sop \<Rightarrow>
          (let last_pdo = (if is_pdo p then Some (Pd p) else w_last_pdo w);
               last_rdo = (if is_rdo p then Some (Pd p) else w_last_rdo w)
           in w\<lparr>w_last_pdo := last_pdo, w_last_rdo := last_rdo,
                data_queue := put_nowait_or_pass (data_queue w)
                  (PdMsg \<lparr>pd_timestamp = timestamp_str, pd_time_sec = current_time t,
                          pd_sop = sop, pd_rev = rev_of (Header4 p), pd_ppr = Header3 p,
                          pd_pdr = Header5 p, pd_msg_type = Header_Message_Type p,
                          pd_pkg_data = Pd p, pd_is_pdo = is_pdo p, pd_is_rdo = is_rdo p,
                          pd_last_pdo = last_pdo, pd_last_rdo = last_rdo\<rparr>)\<rparr>))"

definition loop_body :: "worker \<Rightarrow> tick \<Rightarrow> worker" where
  "loop_body w t =
     (case read_data t of
        Inl e \<Rightarrow> on_exception w e
      | Inr (timestamp_str, pkg) \<Rightarrow>
          (if field pkg = ''general'' then
             (case pkg of General g \<Rightarrow> on_general w t g | _ \<Rightarrow> w)
           else if field pkg = ''pd'' then
             (case pkg of Pd p \<Rightarrow> on_pd w t timestamp_str p | _ \<Rightarrow> w)
           else w))"

text \<open>
  \<^verbatim>\<open>while not stop_event.is_set(): ...\<close> over the iterations the device history provides.
\<close>

fun run_loop :: "worker \<Rightarrow> tick list \<Rightarrow> worker" where
  "run_loop w [] = w"
| "run_loop w (t # ts) =
     (if exited w \<or> stop_is_set t then w\<lparr>exited := True\<rparr>
      else run_loop (loop_body w t) ts)"

text \<open>
  The clock readings \<^verbatim>\<open>now\<close> of the iterations of a run whose sample is flagged for the
  summary, in order.
\<close>

fun summary_updates :: "worker \<Rightarrow> tick list \<Rightarrow> real list" where
  "summary_updates w [] = []"
| "summary_updates w (t # ts) =
     (if exited w \<or> stop_is_set t then []
      else (case read_data t of
              Inr (timestamp_str, General g) \<Rightarrow> if summary_due w t then [now t] else []
            | _ \<Rightarrow> [])
           @ summary_updates (loop_body w t) ts)"

definition init_worker :: "data_msg bqueue \<Rightarrow> iv_data bqueue \<Rightarrow> worker" where
  "init_worker dq ivq =
     \<lparr>w_last_pdo = None, w_last_rdo = None, last_general_timestamp = 0,
      data_queue = dq, iv_queue = ivq, exited = False, sleeps = 0\<rparr>"

text \<open>
  \<open>open_result\<close> is the outcome of \<^verbatim>\<open>k2.open()\<close>: \<open>Some e\<close> when it raises with text \<open>e\<close>.
\<close>

definition data_collection_worker ::
  "data_msg bqueue \<Rightarrow> iv_data bqueue \<Rightarrow> string option \<Rightarrow> tick list \<Rightarrow> worker" where
  "data_collection_worker dq ivq open_result ts =
     (case open_result of
        Some e \<Rightarrow> (init_worker dq ivq)
          \<lparr>data_queue := put_nowait_or_pass dq (ErrorMsg (''connection_failed: '' @ e)),
           exited := True\<rparr>
      | None \<Rightarrow> run_loop (init_worker dq ivq) ts)"

section \<open>State of the owning process\<close>

text \<open>One row of the event log (class \<^verbatim>\<open>DataItem\<close>).\<close>

record data_item =
  item_index :: int
  item_timestamp :: string
  item_time_sec :: "real option"
  item_sop :: string
  item_rev :: "string option"
  item_ppr :: "string option"
  item_pdr :: "string option"
  item_msg_type :: "string option"
  item_data :: pkg

text \<open>
  A status-bar text: a fixed string, or \<^verbatim>\<open>f"Read {n} rows of data"\<close>.
\<close>

datatype status_text = Text string | Read_rows nat

text \<open>Callbacks handed to \<^verbatim>\<open>root.after\<close>.\<close>

datatype job =
  Handle_device_disconnect
| Handle_connection_failed string
| Safe_update_treeview
| Delayed_update_treeview

text \<open>
  The fields of \<^verbatim>\<open>WITRNGUI\<close> the core touches. \<open>status_log\<close> lists the calls of
  \<^verbatim>\<open>set_status\<close> (text and level) in order; \<open>timers\<close> lists the callbacks registered with
  \<^verbatim>\<open>root.after(ms, f)\<close> that have not fired yet; \<open>iv_info_cached\<close> holds the sample last
  written to the summary cache (\<open>None\<close>: every entry is \<^verbatim>\<open>'-'\<close>); \<open>pause_flag\<close> is \<open>None\<close>
  when \<^verbatim>\<open>self.pause_flag\<close> is \<^verbatim>\<open>None\<close>, else the value of the shared flag.
\<close>

record gui =
  data_list :: "data_item list"
  is_paused :: bool
  import_mode :: bool
  device_open :: bool
  awaiting_connection_ack :: bool
  autostart_after_connect :: bool
  data_thread_started :: bool
  last_pdo :: "pkg option"
  last_rdo :: "pkg option"
  pause_flag :: "int option"
  egg_activated :: bool
  plot_times :: "real list"
  plot_voltage :: "real list"
  plot_current :: "real list"
  plot_start_time :: "real option"
  marker_events :: "(real \<times> string) list"
  iv_info_cached :: "iv_data option"
  status_log :: "(status_text \<times> string) list"
  timers :: "(int \<times> job) list"
  last_treeview_update_time :: real
  pending_treeview_update :: bool
  last_rendered_count :: nat

definition init_gui :: gui where
  "init_gui =
     \<lparr>data_list = [], is_paused = True, import_mode = False, device_open = False,
      awaiting_connection_ack = False, autostart_after_connect = False,
      data_thread_started = False, last_pdo = None, last_rdo = None, pause_flag = None,
      egg_activated = False, plot_times = [], plot_voltage = [], plot_current = [],
      plot_start_time = None, marker_events = [], iv_info_cached = None, status_log = [],
      timers = [], last_treeview_update_time = 0, pending_treeview_update = False,
      last_rendered_count = 0\<rparr>"

definition set_status :: "gui \<Rightarrow> status_text \<Rightarrow> string \<Rightarrow> gui" where
  "set_status g text level = g\<lparr>status_log := status_log g @ [(text, level)]\<rparr>"

text \<open>\<^verbatim>\<open>root.after(ms, f)\<close>.\<close>

definition after :: "gui \<Rightarrow> int \<Rightarrow> job \<Rightarrow> gui" where
  "after g ms f = g\<lparr>timers := timers g @ [(ms, f)]\<rparr>"

section \<open>Rolling telemetry buffer and marker log\<close>

text \<open>\<^verbatim>\<open>collections.deque(maxlen=n).append(x)\<close>: the oldest entries fall out on the left.\<close>

definition deque_append :: "nat \<Rightarrow> 'a list \<Rightarrow> 'a \<Rightarrow> 'a list" where
  "deque_append maxlen d x = (let d' = d @ [x] in drop (length d' - maxlen) d')"

definition reset_plot :: "gui \<Rightarrow> gui" where
  "reset_plot g =
     g\<lparr>plot_times := [], plot_voltage := [], plot_current := [], plot_start_time := None,
       marker_events := []\<rparr>"

definition append_plot_point :: "gui \<Rightarrow> real \<Rightarrow> real \<Rightarrow> real \<Rightarrow> gui" where
  "append_plot_point g t_sec v i =
     (let g1 = (if plot_start_time g = None then g\<lparr>plot_start_time := Some t_sec\<rparr> else g);
          rel_time = t_sec - the (plot_start_time g1)
      in g1\<lparr>plot_times := deque_append 60000 (plot_times g1) rel_time,
             plot_voltage := deque_append 60000 (plot_voltage g1) v,
             plot_current := deque_append 60000 (plot_current g1) i\<rparr>)"

definition append_marker_event :: "gui \<Rightarrow> real \<Rightarrow> string \<Rightarrow> gui" where
  "append_marker_event g t_sec kind =
     (if kind \<noteq> ''pdo'' \<and> kind \<noteq> ''rdo'' then g
      else case plot_start_time g of
        None \<Rightarrow> g
      | Some start \<Rightarrow>
          g\<lparr>marker_events := deque_append 3600 (marker_events g) (t_sec - start, kind)\<rparr>)"

section \<open>Event log\<close>

text \<open>
  \<open>now_str\<close> is \<^verbatim>\<open>datetime.now().strftime("%H:%M:%S.%f")[:-3]\<close>, used when the caller
  gives no timestamp (\<^verbatim>\<open>timestamp or ...\<close>: \<^verbatim>\<open>None\<close> and the empty string are both falsy).
\<close>

definition add_data_item ::
  "gui \<Rightarrow> string \<Rightarrow> string \<Rightarrow> string option \<Rightarrow> string option \<Rightarrow> string option \<Rightarrow>
   string option \<Rightarrow> pkg \<Rightarrow> string option \<Rightarrow> real option \<Rightarrow> bool \<Rightarrow> gui" where
  "add_data_item g now_str sop revision ppr pdr msg_type data timestamp time_sec force =
     (if \<not> force \<and> is_paused g then g
      else
        let ts = (case timestamp of None \<Rightarrow> now_str
                  | Some s \<Rightarrow> if s = [] then now_str else s);
            index = int (length (data_list g)) + 1;
            item = \<lparr>item_index = index, item_timestamp = ts, item_time_sec = time_sec,
                    item_sop = sop, item_rev = revision, item_ppr = ppr, item_pdr = pdr,
                    item_msg_type = msg_type, item_data = data\<rparr>;
            g1 = g\<lparr>data_list := data_list g @ [item]\<rparr>
        in set_status g1 (Read_rows (length (data_list g1))) ''busy'')"

definition update_treeview :: "gui \<Rightarrow> gui" where
  "update_treeview g = g\<lparr>last_rendered_count := length (data_list g)\<rparr>"

text \<open>The body of \<^verbatim>\<open>clear_list\<close> once the user agreed (or was not asked).\<close>

definition clear_list :: "gui \<Rightarrow> gui" where
  "clear_list g =
     (let g1 = update_treeview (g\<lparr>data_list := []\<rparr>);
          g2 = g1\<lparr>last_pdo := None, last_rdo := None, import_mode := False\<rparr>
      in if is_paused g2 \<and> \<not> device_open g2 then set_status g2 (Text ''List Cleared'') ''info''
         else if device_open g2 \<and> is_paused g2
           then set_status g2 (Text ''List Cleared, Device Connected'') ''ok''
         else if device_open g2 \<and> \<not> is_paused g2
           then set_status g2 (Text ''List Cleared, Collecting...'') ''busy''
         else g2)"

section \<open>Connection lifecycle\<close>

definition start_data_thread_if_needed :: "gui \<Rightarrow> gui" where
  "start_data_thread_if_needed g =
     (if \<not> device_open g then g
      else if data_thread_started g then g
      else g\<lparr>pause_flag := Some 1, data_thread_started := True\<rparr>)"

definition stop_collection_process :: "gui \<Rightarrow> gui" where
  "stop_collection_process g = g\<lparr>data_thread_started := False, pause_flag := None\<rparr>"

definition reset_iv_info :: "gui \<Rightarrow> gui" where
  "reset_iv_info g = g\<lparr>iv_info_cached := None\<rparr>"

text \<open>
  \<open>confirm\<close> is the user's answer to the dialog shown when the list is not empty.
\<close>

definition connect_device :: "gui \<Rightarrow> bool \<Rightarrow> gui" where
  "connect_device g confirm =
     (if \<not> device_open g then
        (if length (data_list g) > 0 \<and> \<not> confirm then g
         else
           let g1 = (if length (data_list g) > 0 then clear_list g else g);
               g2 = g1\<lparr>device_open := True, is_paused := True\<rparr>;
               g3 = set_status g2 (Text ''Connecting to Device...'') ''warn'';
               g4 = g3\<lparr>awaiting_connection_ack := True, autostart_after_connect := False\<rparr>;
               g5 = start_data_thread_if_needed g4
           in if egg_activated g5 then reset_plot g5 else g5)
      else
        let g1 = stop_collection_process g;
            g2 = g1\<lparr>last_pdo := None, last_rdo := None, device_open := False,
                    is_paused := True, awaiting_connection_ack := False,
                    autostart_after_connect := False\<rparr>;
            g3 = set_status g2 (Text ''Device Disconnected'') ''warn''
        in reset_iv_info g3)"

definition pause_collection :: "gui \<Rightarrow> bool \<Rightarrow> gui" where
  "pause_collection g confirm =
     (if is_paused g then
        (if awaiting_connection_ack g then g\<lparr>autostart_after_connect := True\<rparr>
         else if import_mode g \<and> length (data_list g) > 0 \<and> \<not> confirm then g
         else
           let g1 = (if import_mode g
                     then (if length (data_list g) > 0 then clear_list g else g)
                            \<lparr>import_mode := False\<rparr>
                     else g);
               g2 = g1\<lparr>is_paused := False\<rparr>;
               g3 = (if pause_flag g2 \<noteq> None then g2\<lparr>pause_flag := Some 0\<rparr> else g2)
           in set_status g3 (Text ''Collecting Data...'') ''busy'')
      else
        let g1 = g\<lparr>is_paused := True\<rparr>;
            g2 = (if pause_flag g1 \<noteq> None then g1\<lparr>pause_flag := Some 1\<rparr> else g1)
        in set_status g2 (Text ''Data Collection Paused'') ''warn'')"

definition handle_device_disconnect :: "gui \<Rightarrow> gui" where
  "handle_device_disconnect g =
     (let g1 = g\<lparr>is_paused := True, device_open := False, awaiting_connection_ack := False,
                  autostart_after_connect := False, last_pdo := None, last_rdo := None\<rparr>;
          g2 = set_status g1 (Text ''Device Disconnected'') ''error'';
          g3 = reset_iv_info g2
      in stop_collection_process g3)"

definition handle_connection_failed :: "gui \<Rightarrow> string \<Rightarrow> gui" where
  "handle_connection_failed g err_msg =
     (let g1 = stop_collection_process g;
          g2 = g1\<lparr>device_open := False, is_paused := True, awaiting_connection_ack := False,
                   autostart_after_connect := False\<rparr>;
          g3 = reset_iv_info g2
      in set_status g3 (Text ''Device Connection Failed'') ''error'')"

section \<open>Consumer loop\<close>

text \<open>
  The block both draining loops run on every item that is not an error sentinel.
\<close>

definition confirm_connection :: "gui \<Rightarrow> gui" where
  "confirm_connection g =
     (if device_open g \<and> awaiting_connection_ack g then
        let g1 = set_status g (Text ''Device Connected'') ''ok'';
            g2 = g1\<lparr>awaiting_connection_ack := False\<rparr>
        in if autostart_after_connect g2 then
             let g3 = g2\<lparr>is_paused := False\<rparr>;
                 g4 = (if pause_flag g3 \<noteq> None then g3\<lparr>pause_flag := Some 0\<rparr> else g3);
                 g5 = set_status g4 (Text ''Collecting Data...'') ''busy''
             in g5\<lparr>autostart_after_connect := False\<rparr>
           else g2
      else g)"

definition on_error :: "gui \<Rightarrow> string \<Rightarrow> gui" where
  "on_error g err =
     (if err = ''device_disconnected'' then after g 0 Handle_device_disconnect
      else if startswith err ''connection_failed'' then after g 0 (Handle_connection_failed err)
      else g)"

definition on_pd_data :: "gui \<Rightarrow> string \<Rightarrow> pd_data \<Rightarrow> gui" where
  "on_pd_data g now_str d =
     (let g1 = confirm_connection g;
          g2 = add_data_item g1 now_str (pd_sop d) (pd_rev d) (pd_ppr d) (pd_pdr d)
                 (pd_msg_type d) (pd_pkg_data d) (Some (pd_timestamp d)) (Some (pd_time_sec d))
                 False;
          g3 = (if pd_is_pdo d
                then append_marker_event (g2\<lparr>last_pdo := pd_last_pdo d\<rparr>) (pd_time_sec d) ''pdo''
                else g2)
      in if pd_is_rdo d
         then append_marker_event (g3\<lparr>last_rdo := pd_last_rdo d\<rparr>) (pd_time_sec d) ''rdo''
         else g3)"

definition on_iv_data :: "gui \<Rightarrow> iv_data \<Rightarrow> gui" where
  "on_iv_data g d =
     (let g1 = confirm_connection g;
          g2 = (if update_plot d
                then append_plot_point g1 (iv_timestamp d) (iv_voltage d) (iv_current d)
                else g1)
      in if update_iv_info d \<and> device_open g2 then g2\<lparr>iv_info_cached := Some d\<rparr> else g2)"

text \<open>
  One pass over the pending items of a queue (\<^verbatim>\<open>while True: q.get_nowait() ...\<close>): the
  protocol pass stops at an error sentinel (\<^verbatim>\<open>break\<close>) and leaves the rest pending.
\<close>

fun drain_data_queue :: "gui \<Rightarrow> string \<Rightarrow> data_msg list \<Rightarrow> gui \<times> data_msg list" where
  "drain_data_queue g now_str [] = (g, [])"
| "drain_data_queue g now_str (ErrorMsg err # ms) = (on_error g err, ms)"
| "drain_data_queue g now_str (PdMsg d # ms) = drain_data_queue (on_pd_data g now_str d) now_str ms"

fun drain_iv_queue :: "gui \<Rightarrow> iv_data list \<Rightarrow> gui" where
  "drain_iv_queue g [] = g"
| "drain_iv_queue g (d # ds) = drain_iv_queue (on_iv_data g d) ds"

text \<open>An item taken from either queue, and the processing of a sequence of them.\<close>

datatype consumed = From_data_queue data_msg | From_iv_queue iv_data

fun consume :: "gui \<Rightarrow> string \<Rightarrow> consumed \<Rightarrow> gui" where
  "consume g now_str (From_data_queue (ErrorMsg err)) = on_error g err"
| "consume g now_str (From_data_queue (PdMsg d)) = on_pd_data g now_str d"
| "consume g now_str (From_iv_queue d) = on_iv_data g d"

fun is_error :: "consumed \<Rightarrow> bool" where
  "is_error (From_data_queue (ErrorMsg err)) = True"
| "is_error _ = False"

fun consume_all :: "gui \<Rightarrow> string \<Rightarrow> consumed list \<Rightarrow> gui" where
  "consume_all g now_str [] = g"
| "consume_all g now_str (c # cs) = consume_all (consume g now_str c) now_str cs"

section \<open>Presentation scheduler\<close>

definition min_interval :: "nat \<Rightarrow> real" where
  "min_interval current_data_count =
     (if current_data_count < 1000 then 0.1
      else if current_data_count < 5000 then 0.3
      else if current_data_count < 10000 then 0.5
      else if current_data_count < 20000 then 1.0
      else 2.0)"

definition check_sleep :: "nat \<Rightarrow> real" where
  "check_sleep current_data_count =
     (if current_data_count < 5000 then 0.1
      else if current_data_count < 20000 then 0.2
      else 0.5)"

text \<open>Python's \<^verbatim>\<open>int(x)\<close> on a float: truncation towards zero.\<close>

definition py_int :: "real \<Rightarrow> int" where
  "py_int x = (if 0 \<le> x then \<lfloor>x\<rfloor> else \<lceil>x\<rceil>)"

text \<open>
  One iteration of \<^verbatim>\<open>refresh_data_loop\<close> at clock reading \<open>t_now\<close>; the first component is
  the loop's local \<^verbatim>\<open>last_data_count\<close>.
\<close>

definition refresh_iteration :: "nat \<times> gui \<Rightarrow> real \<Rightarrow> nat \<times> gui" where
  "refresh_iteration s t_now =
     (let last_data_count = fst s; g = snd s;
          current_data_count = length (data_list g)
      in if current_data_count \<noteq> last_data_count then
           let time_since_last_update = t_now - last_treeview_update_time g in
           if time_since_last_update \<ge> min_interval current_data_count then
             (current_data_count,
              (after g 0 Safe_update_treeview)\<lparr>last_treeview_update_time := t_now\<rparr>)
           else if \<not> pending_treeview_update g then
             (last_data_count,
              after (g\<lparr>pending_treeview_update := True\<rparr>)
                (py_int ((min_interval current_data_count - time_since_last_update) * 1000))
                Delayed_update_treeview)
           else (last_data_count, g)
         else (last_data_count, g))"

definition delayed_update_treeview :: "gui \<Rightarrow> real \<Rightarrow> gui" where
  "delayed_update_treeview g t_now =
     (if pending_treeview_update g
      then update_treeview (g\<lparr>pending_treeview_update := False,
                              last_treeview_update_time := t_now\<rparr>)
      else g)"

fun run_job :: "gui \<Rightarrow> real \<Rightarrow> job \<Rightarrow> gui" where
  "run_job g t_now Handle_device_disconnect = handle_device_disconnect g"
| "run_job g t_now (Handle_connection_failed err) = handle_connection_failed g err"
| "run_job g t_now Safe_update_treeview = update_treeview g"
| "run_job g t_now Delayed_update_treeview = delayed_update_treeview g t_now"

text \<open>
  The event loop runs the \<open>k\<close>-th pending callback at clock reading \<open>t_now\<close>; a callback
  fires once and is then forgotten.
\<close>

definition fire_timer :: "gui \<Rightarrow> nat \<Rightarrow> real \<Rightarrow> gui" where
  "fire_timer g k t_now =
     (if k < length (timers g)
      then run_job (g\<lparr>timers := take k (timers g) @ drop (Suc k) (timers g)\<rparr>) t_now
             (snd (timers g ! k))
      else g)"

section \<open>Interleavings of the owning process\<close>

text \<open>
  What can happen to the owning process, one whole operation at a time: an iteration of the
  refresh loop, a callback firing, the consumer processing one item, and the user's
  controls.
\<close>

datatype event =
  Refresh real
| Fire nat real
| Consume string consumed
| Connect bool
| Pause bool
| Clear
| Reset_plot

fun step :: "nat \<times> gui \<Rightarrow> event \<Rightarrow> nat \<times> gui" where
  "step s (Refresh t_now) = refresh_iteration s t_now"
| "step s (Fire k t_now) = (fst s, fire_timer (snd s) k t_now)"
| "step s (Consume now_str c) = (fst s, consume (snd s) now_str c)"
| "step s (Connect confirm) = (fst s, connect_device (snd s) confirm)"
| "step s (Pause confirm) = (fst s, pause_collection (snd s) confirm)"
| "step s Clear = (fst s, clear_list (snd s))"
| "step s Reset_plot = (fst s, reset_plot (snd s))"

fun run :: "nat \<times> gui \<Rightarrow> event list \<Rightarrow> nat \<times> gui" where
  "run s [] = s"
| "run s (e # es) = run (step s e) es"

section \<open>Sample inputs\<close>

definition empty_queue :: "nat \<Rightarrow> 'a bqueue" where
  "empty_queue n = \<lparr>maxsize = n, items = []\<rparr>"

text \<open>A telemetry packet whose \<^verbatim>\<open>VBus\<close> and \<^verbatim>\<open>CC2\<close> fields do not convert.\<close>

definition sample_general :: general_pkg where
  "sample_general =
     \<lparr>f_Current = Some 1.5, f_VBus = None, f_CC1 = Some 0.4, f_CC2 = None,
      f_Dp = Some 0.6, f_Dn = Some 0.6\<rparr>"

text \<open>A capability message whose power-role header field is missing.\<close>

definition sample_pd :: pd_pkg where
  "sample_pd =
     \<lparr>SOP = Inr ''SOP'', Header4 = Some ''Rev 3.x'', Header3 = None, Header5 = Some ''UFP'',
      Header_Message_Type = Some ''Source_Capabilities'', is_pdo = True, is_rdo = False,
      payload = [1, 2, 3]\<rparr>"

definition general_tick :: "real \<Rightarrow> tick" where
  "general_tick t =
     \<lparr>stop_is_set = False, read_data = Inr (''12:00:00.000'', General sample_general),
      current_time = t, now = t, pause_value = 0\<rparr>"

definition pd_tick :: "pd_pkg \<Rightarrow> int \<Rightarrow> tick" where
  "pd_tick p pause =
     \<lparr>stop_is_set = False, read_data = Inr (''12:00:00.000'', Pd p),
      current_time = 5, now = 5, pause_value = pause\<rparr>"

definition error_tick :: "string \<Rightarrow> tick" where
  "error_tick e =
     \<lparr>stop_is_set = False, read_data = Inl e, current_time = 5, now = 5, pause_value = 0\<rparr>"


definition sample_pd_data :: pd_data where
  "sample_pd_data =
     \<lparr>pd_timestamp = ''12:00:00.000'', pd_time_sec = 5, pd_sop = ''SOP'',
      pd_rev = Some ''3.x'', pd_ppr = None, pd_pdr = Some ''UFP'',
      pd_msg_type = Some ''Source_Capabilities'', pd_pkg_data = Pd sample_pd,
      pd_is_pdo = True, pd_is_rdo = False, pd_last_pdo = Some (Pd sample_pd),
      pd_last_rdo = None\<rparr>"

definition sample_iv_data :: iv_data where
  "sample_iv_data =
     \<lparr>iv_timestamp = 7, iv_voltage = 5, iv_current = 1, iv_power = 5, iv_cc1 = 0, iv_cc2 = 0,
      iv_dp = 0, iv_dn = 0, update_plot = True, update_iv_info = True\<rparr>"


definition worker0 :: worker where
  "worker0 = init_worker (empty_queue 1000) (empty_queue 500)"

text \<open>A worker whose protocol channel (capacity 1) is full.\<close>

definition worker_full :: worker where
  "worker_full =
     init_worker \<lparr>maxsize = 1, items = [PdMsg sample_pd_data]\<rparr> \<lparr>maxsize = 1, items = [sample_iv_data]\<rparr>"

text \<open>A protocol packet on which \<^verbatim>\<open>pkg["SOP*"]\<close> raises \<^verbatim>\<open>KeyError('SOP*')\<close>.\<close>

definition bad_sop_pd :: pd_pkg where
  "bad_sop_pd = sample_pd\<lparr>SOP := Inl [CHR 0x27, CHR ''S'', CHR ''O'', CHR ''P'', CHR ''*'', CHR 0x27]\<rparr>"

section \<open>Observations used in the statements\<close>

text \<open>Appending a sequence of samples (time, voltage, current) to the rolling buffer.\<close>

fun append_plot_points :: "gui \<Rightarrow> (real \<times> real \<times> real) list \<Rightarrow> gui" where
  "append_plot_points g [] = g"
| "append_plot_points g ((t_sec, v, i) # ps) = append_plot_points (append_plot_point g t_sec v i) ps"

text \<open>How often the status bar was set to the connection acknowledgement.\<close>

definition connection_acks :: "gui \<Rightarrow> nat" where
  "connection_acks g = count_list (status_log g) (Text ''Device Connected'', ''ok'')"

text \<open>The number of deferred refreshes that are scheduled and have not fired.\<close>

definition deferred_pending :: "gui \<Rightarrow> nat" where
  "deferred_pending g = length (filter (\<lambda>x. snd x = Delayed_update_treeview) (timers g))"

text \<open>The sequence indices of a log are 1, 2, 3, ... in order.\<close>

definition well_indexed :: "data_item list \<Rightarrow> bool" where
  "well_indexed dl = (map item_index dl = map int [1..<Suc (length dl)])"

text \<open>The owning process right after the user connected, from the initial state.\<close>

definition connected_gui :: gui where
  "connected_gui = connect_device init_gui False"

text \<open>Two states agree on the connection fields.\<close>

definition same_conn :: "gui \<Rightarrow> gui \<Rightarrow> bool" where
  "same_conn g g' =
     (awaiting_connection_ack g' = awaiting_connection_ack g \<and> device_open g' = device_open g \<and>
      connection_acks g' = connection_acks g \<and> is_paused g' = is_paused g \<and>
      pause_flag g' = pause_flag g \<and> autostart_after_connect g' = autostart_after_connect g)"

text \<open>
  The scheduler's invariant: a deferred refresh is among the timers exactly when the flag is
  set, and then only one.
\<close>

definition sched_ok :: "gui \<Rightarrow> bool" where
  "sched_ok g = (deferred_pending g = (if pending_treeview_update g then 1 else 0))"

text \<open>
  The owning process collecting: connected with auto-start, one event shown by an immediate
  refresh at clock reading 100, and a second event just arrived.
\<close>

definition busy_state :: "nat \<times> gui" where
  "busy_state = run (0, init_gui)
     [Connect False, Pause False,
      Consume ''12:00:00.001'' (From_data_queue (PdMsg sample_pd_data)),
      Refresh 100,
      Consume ''12:00:00.002'' (From_data_queue (PdMsg sample_pd_data))]"

section \<open>Properties of the channels\<close>

lemma put_full: "full q \<Longrightarrow> put_nowait_or_pass q x = q"
  by (simp add: put_nowait_or_pass_def put_nowait_def)

lemma put_not_full: "\<not> full q \<Longrightarrow> put_nowait_or_pass q x = q\<lparr>items := items q @ [x]\<rparr>"
  by (simp add: put_nowait_or_pass_def put_nowait_def)

lemma put_maxsize: "maxsize (put_nowait_or_pass q x) = maxsize q"
  by (simp add: put_nowait_or_pass_def put_nowait_def)

lemma put_items:
  "0 < maxsize q \<Longrightarrow>
   items (put_nowait_or_pass q x) = items q @ take (maxsize q - length (items q)) [x]"
  by (cases "full q") (auto simp: put_full put_not_full full_def)


section \<open>One iteration of the worker\<close>

lemma loop_body_general:
  "read_data t = Inr (s, General g) \<Longrightarrow> loop_body w t = on_general w t g"
  by (simp add: loop_body_def)

lemma loop_body_pd:
  "read_data t = Inr (s, Pd p) \<Longrightarrow> loop_body w t = on_pd w t s p"
  by (simp add: loop_body_def)

lemma loop_body_raise:
  "read_data t = Inl e \<Longrightarrow> loop_body w t = on_exception w e"
  by (simp add: loop_body_def)

lemma on_general_iv_queue:
  "iv_queue (on_general w t g) = put_nowait_or_pass (iv_queue w)
     \<lparr>iv_timestamp = current_time t, iv_voltage = or_zero (f_VBus g),
      iv_current = or_zero (f_Current g),
      iv_power = \<bar>or_zero (f_Current g) * or_zero (f_VBus g)\<bar>,
      iv_cc1 = or_zero (f_CC1 g), iv_cc2 = or_zero (f_CC2 g), iv_dp = or_zero (f_Dp g),
      iv_dn = or_zero (f_Dn g), update_plot = True, update_iv_info = summary_due w t\<rparr>"
  by (simp add: on_general_def Let_def)

lemma on_general_frame:
  "data_queue (on_general w t g) = data_queue w"
  "exited (on_general w t g) = exited w"
  "sleeps (on_general w t g) = sleeps w"
  "w_last_pdo (on_general w t g) = w_last_pdo w"
  "w_last_rdo (on_general w t g) = w_last_rdo w"
  by (simp_all add: on_general_def Let_def)

lemma on_general_last:
  "last_general_timestamp (on_general w t g) =
     (if summary_due w t then now t else last_general_timestamp w)"
  by (simp add: on_general_def Let_def)

lemma on_exception_frame:
  "iv_queue (on_exception w e) = iv_queue w"
  "last_general_timestamp (on_exception w e) = last_general_timestamp w"
  by (simp_all add: on_exception_def Let_def)


lemma on_pd_frame:
  "iv_queue (on_pd w t s p) = iv_queue w"
  "last_general_timestamp (on_pd w t s p) = last_general_timestamp w"
  by (simp_all add: on_pd_def Let_def on_exception_frame split: sum.splits)




lemma loop_body_last_cases:
  "last_general_timestamp (loop_body w t) = last_general_timestamp w \<or>
   (\<exists>s g. read_data t = Inr (s, General g) \<and> summary_due w t \<and>
      last_general_timestamp (loop_body w t) = now t)"
  by (auto simp: loop_body_def on_general_last on_pd_frame on_exception_frame
      split: sum.splits pkg.splits)

section \<open>The rate limit over a run\<close>

lemma summary_updates_gap:
  "(\<forall>y \<in> set (summary_updates w ts). y - last_general_timestamp w \<ge> 0.1) \<and>
   sorted_wrt (\<lambda>a b. b - a \<ge> 0.1) (summary_updates w ts)"
proof (induction ts arbitrary: w)
  case Nil
  show ?case by simp
next
  case (Cons t ts)
  let ?w' = "loop_body w t"
  note IH = Cons.IH[of ?w']
  show ?case
  proof (cases "exited w \<or> stop_is_set t")
    case True
    then show ?thesis by simp
  next
    case False
    show ?thesis
    proof (cases "\<exists>s g. read_data t = Inr (s, General g) \<and> summary_due w t")
      case True
      then obtain s g where rd: "read_data t = Inr (s, General g)" and due: "summary_due w t"
        by blast
      have l: "last_general_timestamp ?w' = now t"
        using rd due by (simp add: loop_body_general on_general_last)
      have su: "summary_updates w (t # ts) = now t # summary_updates ?w' ts"
        using False rd due by simp
      have d: "now t - last_general_timestamp w \<ge> 0.1"
        using due by (simp add: summary_due_def)
      show ?thesis using IH l d unfolding su by fastforce
    next
      case nd: False
      have su: "summary_updates w (t # ts) = summary_updates ?w' ts"
        using False nd by (auto split: sum.splits pkg.splits)
      have l: "last_general_timestamp ?w' = last_general_timestamp w"
        using loop_body_last_cases[of w t] nd by auto
      show ?thesis using IH l unfolding su by simp
    qed
  qed
qed

lemma summary_updates_apart:
  assumes "i < j" "j < length (summary_updates w ts)"
  shows "summary_updates w ts ! j - summary_updates w ts ! i \<ge> 0.1"
  using summary_updates_gap[of w ts] assms
  by (simp add: sorted_wrt_iff_nth_less)

text \<open>
  With an unbounded telemetry channel every sample is enqueued, and the samples a run
  enqueues with \<open>update_iv_info\<close> set are as many as \<open>summary_updates\<close> lists.
\<close>

lemma loop_body_flagged:
  "maxsize (iv_queue w) = 0 \<Longrightarrow>
   maxsize (iv_queue (loop_body w t)) = 0 \<and>
   length (filter update_iv_info (items (iv_queue (loop_body w t)))) =
     length (filter update_iv_info (items (iv_queue w))) +
     length (case read_data t of
              Inr (timestamp_str, General g) \<Rightarrow> if summary_due w t then [now t] else []
            | _ \<Rightarrow> [])"
  by (auto simp: loop_body_def on_general_iv_queue on_pd_frame on_exception_frame
      put_not_full put_maxsize full_def split: sum.splits pkg.splits)

lemma summary_updates_counts_flags:
  "maxsize (iv_queue w) = 0 \<Longrightarrow>
   length (filter update_iv_info (items (iv_queue (run_loop w ts)))) =
     length (filter update_iv_info (items (iv_queue w))) + length (summary_updates w ts)"
proof (induction ts arbitrary: w)
  case Nil
  show ?case by simp
next
  case (Cons t ts)
  show ?case
  proof (cases "exited w \<or> stop_is_set t")
    case True
    then show ?thesis by simp
  next
    case False
    note b = loop_body_flagged[OF Cons.prems, of t]
    have "length (filter update_iv_info (items (iv_queue (run_loop (loop_body w t) ts)))) =
        length (filter update_iv_info (items (iv_queue (loop_body w t)))) +
        length (summary_updates (loop_body w t) ts)"
      using b by (intro Cons.IH) simp
    then show ?thesis using False b by simp
  qed
qed

section \<open>Bursts into a bounded channel\<close>



section \<open>Properties of the acquisition worker\<close>

lemmas sample_defs = worker0_def worker_full_def init_worker_def empty_queue_def general_tick_def
  pd_tick_def error_tick_def sample_general_def sample_pd_def sample_pd_data_def
  sample_iv_data_def

lemmas worker_defs = loop_body_def on_general_def on_pd_def on_exception_def summary_due_def
  put_nowait_or_pass_def put_nowait_def full_def or_zero_def rev_of_def Let_def



text \<open>
  Claim C4. Every telemetry sample is offered to the telemetry channel with
  \<open>update_plot\<close> set, and with \<open>update_iv_info\<close> set exactly when the clock reading
  \<open>now\<close> is at least 0.1 s past the last summary timestamp, which then advances to \<open>now\<close>.
  In every run, the clock readings of any two samples flagged for the summary are at least
  0.1 s apart.
\<close>

theorem summary_rate_limit:
  "(read_data t = Inr (s, General g) \<longrightarrow>
      (\<exists>d. iv_queue (loop_body w t) = put_nowait_or_pass (iv_queue w) d \<and> update_plot d \<and>
            update_iv_info d = (now t - last_general_timestamp w \<ge> 0.1)) \<and>
      last_general_timestamp (loop_body w t) =
        (if now t - last_general_timestamp w \<ge> 0.1 then now t else last_general_timestamp w)) \<and>
   (\<forall>i j. i < j \<and> j < length (summary_updates w ts) \<longrightarrow>
      summary_updates w ts ! j - summary_updates w ts ! i \<ge> 0.1)"
proof -
  let ?d = "\<lparr>iv_timestamp = current_time t, iv_voltage = or_zero (f_VBus g),
      iv_current = or_zero (f_Current g),
      iv_power = \<bar>or_zero (f_Current g) * or_zero (f_VBus g)\<bar>,
      iv_cc1 = or_zero (f_CC1 g), iv_cc2 = or_zero (f_CC2 g), iv_dp = or_zero (f_Dp g),
      iv_dn = or_zero (f_Dn g), update_plot = True, update_iv_info = summary_due w t\<rparr>"
  have a: "read_data t = Inr (s, General g) \<Longrightarrow>
      (\<exists>d. iv_queue (loop_body w t) = put_nowait_or_pass (iv_queue w) d \<and> update_plot d \<and>
            update_iv_info d = (now t - last_general_timestamp w \<ge> 0.1))"
    by (rule exI[of _ ?d]) (simp add: loop_body_general on_general_iv_queue summary_due_def)
  have b: "read_data t = Inr (s, General g) \<Longrightarrow> last_general_timestamp (loop_body w t) =
        (if now t - last_general_timestamp w \<ge> 0.1 then now t else last_general_timestamp w)"
    by (simp add: loop_body_general on_general_last summary_due_def)
  show ?thesis using a b summary_updates_apart[of _ _ w ts] by blast
qed

theorem summary_rate_limit_witness:
  "map update_iv_info (items (iv_queue
      (run_loop worker0 [general_tick 1, general_tick 1.05, general_tick 1.2]))) = [True, False, True] \<and>
   map update_plot (items (iv_queue
      (run_loop worker0 [general_tick 1, general_tick 1.05, general_tick 1.2]))) = [True, True, True] \<and>
   summary_updates worker0 [general_tick 1, general_tick 1.05, general_tick 1.2] = [1, 1.2] \<and>
   summary_updates worker0 [general_tick 1, general_tick 1.05, general_tick 1.2] ! 1
     - summary_updates worker0 [general_tick 1, general_tick 1.05, general_tick 1.2] ! 0 \<ge> 0.1"
  using summary_rate_limit [where t = "general_tick 1" and s = "''12:00:00.000''" and g = sample_general
      and w = worker0 and ts = "[general_tick 1, general_tick 1.05, general_tick 1.2]"]
  by (simp add: sample_defs worker_defs)

lemma lower_bad_sop: "\<not> str_in ''read error'' (lower [CHR 0x27, CHR ''S'', CHR ''O'', CHR ''P'', CHR ''*'', CHR 0x27])"
  by code_simp

section \<open>Channel-full behaviour\<close>




section \<open>Per-field decode faults\<close>

text \<open>
  Claim C5, as stated, fails: the read of \<^verbatim>\<open>pkg["SOP*"]\<close> is not guarded. On a protocol
  packet where it raises, the record is abandoned: nothing is published and the worker
  sleeps and retries.
\<close>

theorem sop_fault_aborts_record_counterexample:
  "loop_body worker0 (pd_tick bad_sop_pd 0) = worker0\<lparr>sleeps := 1\<rparr> \<and>
   items (data_queue (loop_body worker0 (pd_tick bad_sop_pd 0))) = []"
  using lower_bad_sop
  by (simp add: sample_defs bad_sop_pd_def loop_body_def on_pd_def on_exception_def Let_def)

text \<open>
  Claim C5, amended. A telemetry sample is always offered to the telemetry channel, each
  numeric field that does not convert being 0 and every other field keeping its value. A
  protocol record whose \<^verbatim>\<open>SOP*\<close> field reads, taken while not paused, is always offered
  to the protocol channel, each of the four header fields (revision, power role, data role,
  message type) that cannot be read being empty. Neither case leaves the loop or sleeps.
\<close>

theorem field_faults_tolerated:
  "(read_data t = Inr (s, General g) \<longrightarrow>
      iv_queue (loop_body w t) = put_nowait_or_pass (iv_queue w)
        \<lparr>iv_timestamp = current_time t,
         iv_voltage = (case f_VBus g of None \<Rightarrow> 0 | Some x \<Rightarrow> x),
         iv_current = (case f_Current g of None \<Rightarrow> 0 | Some x \<Rightarrow> x),
         iv_power = \<bar>(case f_Current g of None \<Rightarrow> 0 | Some x \<Rightarrow> x) *
                      (case f_VBus g of None \<Rightarrow> 0 | Some x \<Rightarrow> x)\<bar>,
         iv_cc1 = (case f_CC1 g of None \<Rightarrow> 0 | Some x \<Rightarrow> x),
         iv_cc2 = (case f_CC2 g of None \<Rightarrow> 0 | Some x \<Rightarrow> x),
         iv_dp = (case f_Dp g of None \<Rightarrow> 0 | Some x \<Rightarrow> x),
         iv_dn = (case f_Dn g of None \<Rightarrow> 0 | Some x \<Rightarrow> x),
         update_plot = True,
         update_iv_info = (now t - last_general_timestamp w \<ge> 0.1)\<rparr> \<and>
      exited (loop_body w t) = exited w \<and> sleeps (loop_body w t) = sleeps w) \<and>
   (read_data t = Inr (s, Pd p) \<and> pause_value t \<noteq> 1 \<and> SOP p = Inr sop \<longrightarrow>
      (\<exists>d. data_queue (loop_body w t) = put_nowait_or_pass (data_queue w) (PdMsg d) \<and>
           pd_sop d = sop \<and> pd_pkg_data d = Pd p \<and>
           pd_rev d = (case Header4 p of None \<Rightarrow> None
                       | Some v \<Rightarrow> if drop 4 v = ''rved'' then None else Some (drop 4 v)) \<and>
           pd_ppr d = Header3 p \<and> pd_pdr d = Header5 p \<and>
           pd_msg_type d = Header_Message_Type p) \<and>
      exited (loop_body w t) = exited w \<and> sleeps (loop_body w t) = sleeps w)"
proof -
  have a: "read_data t = Inr (s, General g) \<Longrightarrow> ?thesis"
    by (simp add: loop_body_general on_general_iv_queue on_general_frame or_zero_def
        summary_due_def)
  have b: "read_data t = Inr (s, Pd p) \<Longrightarrow> ?thesis"
    by (auto simp: loop_body_pd on_pd_def Let_def rev_of_def split: option.splits)
  show ?thesis using a b by blast
qed

theorem field_faults_tolerated_witness:
  "items (iv_queue (loop_body worker0 (general_tick 5))) =
     [\<lparr>iv_timestamp = 5, iv_voltage = 0, iv_current = 1.5, iv_power = 0, iv_cc1 = 0.4,
       iv_cc2 = 0, iv_dp = 0.6, iv_dn = 0.6, update_plot = True, update_iv_info = True\<rparr>] \<and>
   map (\<lambda>m. case m of PdMsg d \<Rightarrow> (pd_sop d, pd_rev d, pd_ppr d, pd_pdr d) | ErrorMsg e \<Rightarrow> (e, None, None, None))
     (items (data_queue (loop_body worker0 (pd_tick sample_pd 0)))) =
     [(''SOP'', Some ''3.x'', None, Some ''UFP'')]"
  using field_faults_tolerated [where t = "general_tick 5" and s = "''12:00:00.000''" and g = sample_general
      and w = worker0]
    field_faults_tolerated [where t = "pd_tick sample_pd 0" and s = "''12:00:00.000''" and p = sample_pd
      and w = worker0 and sop = "''SOP''"]
  by (simp add: sample_defs worker_defs)

lemma lower_read_error: "str_in ''read error'' (lower ''HID Read Error'')"
  by code_simp

lemma lower_timeout: "\<not> str_in ''read error'' (lower ''timeout'')"
  by code_simp

section \<open>Read errors and the disconnect sentinel\<close>

lemma run_loop_exited: "exited w \<Longrightarrow> run_loop w ts = w"
  by (cases ts) simp_all

lemma handle_device_disconnect_fields:
  "\<not> device_open (handle_device_disconnect g)"
  "is_paused (handle_device_disconnect g)"
  "\<not> awaiting_connection_ack (handle_device_disconnect g)"
  "last_pdo (handle_device_disconnect g) = None"
  "last_rdo (handle_device_disconnect g) = None"
  "pause_flag (handle_device_disconnect g) = None"
  by (simp_all add: handle_device_disconnect_def Let_def set_status_def reset_iv_info_def
      stop_collection_process_def)

lemma consume_disconnected:
  "consume g ns (From_data_queue (ErrorMsg ''device_disconnected'')) =
     after g 0 Handle_device_disconnect"
  by (simp add: on_error_def)

lemma fire_last_timer:
  "fire_timer (after g ms f) (length (timers g)) t_now = run_job g t_now f"
  by (simp add: fire_timer_def after_def)

text \<open>
  Claim C6, as stated, fails: the sentinel is published with the same non-blocking put
  whose failure is ignored. With the protocol channel full, a read error leaves the channel
  as it was and the worker exits without any sentinel in it.
\<close>

theorem sentinel_lost_on_full_counterexample:
  "loop_body worker_full (error_tick ''HID Read Error'') = worker_full\<lparr>exited := True\<rparr> \<and>
   items (data_queue (loop_body worker_full (error_tick ''HID Read Error''))) =
     [PdMsg sample_pd_data]"
  using lower_read_error
  by (simp add: worker_full_def init_worker_def error_tick_def loop_body_def on_exception_def
      Let_def put_nowait_or_pass_def put_nowait_def full_def)

text \<open>
  Claim C6, amended. On an exception whose lower-cased text contains \<^verbatim>\<open>read error\<close> the
  worker offers the \<^verbatim>\<open>device_disconnected\<close> sentinel to the protocol channel (it is
  enqueued unless the channel is full) and leaves its loop for good; on any other exception
  it only sleeps and goes on. The consumer answers the sentinel by scheduling the
  disconnect handler on the main thread; once that handler has run, the device is marked
  closed and the last-capability and last-request references are empty.
\<close>

theorem read_error_sentinel:
  "(read_data t = Inl e \<and> str_in ''read error'' (lower e) \<longrightarrow>
      loop_body w t = w\<lparr>data_queue := put_nowait_or_pass (data_queue w)
                           (ErrorMsg ''device_disconnected''), exited := True\<rparr> \<and>
      items (data_queue (loop_body w t)) =
        (if full (data_queue w) then items (data_queue w)
         else items (data_queue w) @ [ErrorMsg ''device_disconnected'']) \<and>
      run_loop (loop_body w t) ts = loop_body w t) \<and>
   (read_data t = Inl e \<and> \<not> str_in ''read error'' (lower e) \<longrightarrow>
      loop_body w t = w\<lparr>sleeps := Suc (sleeps w)\<rparr>) \<and>
   consume g ns (From_data_queue (ErrorMsg ''device_disconnected'')) =
     after g 0 Handle_device_disconnect \<and>
   \<not> device_open (fire_timer (consume g ns (From_data_queue (ErrorMsg ''device_disconnected'')))
        (length (timers g)) t_now) \<and>
   last_pdo (fire_timer (consume g ns (From_data_queue (ErrorMsg ''device_disconnected'')))
        (length (timers g)) t_now) = None \<and>
   last_rdo (fire_timer (consume g ns (From_data_queue (ErrorMsg ''device_disconnected'')))
        (length (timers g)) t_now) = None"
proof -
  have a: "read_data t = Inl e \<Longrightarrow> str_in ''read error'' (lower e) \<Longrightarrow>
      loop_body w t = w\<lparr>data_queue := put_nowait_or_pass (data_queue w)
                           (ErrorMsg ''device_disconnected''), exited := True\<rparr>"
    by (simp add: loop_body_raise on_exception_def)
  have b: "items (data_queue (w\<lparr>data_queue := put_nowait_or_pass (data_queue w)
                           (ErrorMsg ''device_disconnected''), exited := True\<rparr>)) =
        (if full (data_queue w) then items (data_queue w)
         else items (data_queue w) @ [ErrorMsg ''device_disconnected''])"
    by (simp add: put_full put_not_full)
  have c: "run_loop (w\<lparr>data_queue := put_nowait_or_pass (data_queue w)
                           (ErrorMsg ''device_disconnected''), exited := True\<rparr>) ts =
      w\<lparr>data_queue := put_nowait_or_pass (data_queue w)
                           (ErrorMsg ''device_disconnected''), exited := True\<rparr>"
    by (rule run_loop_exited) simp
  have d: "read_data t = Inl e \<Longrightarrow> \<not> str_in ''read error'' (lower e) \<Longrightarrow>
      loop_body w t = w\<lparr>sleeps := Suc (sleeps w)\<rparr>"
    by (simp add: loop_body_raise on_exception_def)
  have f: "fire_timer (consume g ns (From_data_queue (ErrorMsg ''device_disconnected'')))
        (length (timers g)) t_now = handle_device_disconnect g"
    by (simp only: consume_disconnected fire_last_timer run_job.simps)
  have A: "read_data t = Inl e \<and> str_in ''read error'' (lower e) \<longrightarrow>
      loop_body w t = w\<lparr>data_queue := put_nowait_or_pass (data_queue w)
                           (ErrorMsg ''device_disconnected''), exited := True\<rparr> \<and>
      items (data_queue (loop_body w t)) =
        (if full (data_queue w) then items (data_queue w)
         else items (data_queue w) @ [ErrorMsg ''device_disconnected'']) \<and>
      run_loop (loop_body w t) ts = loop_body w t"
    using a b c by simp
  have D: "read_data t = Inl e \<and> \<not> str_in ''read error'' (lower e) \<longrightarrow>
      loop_body w t = w\<lparr>sleeps := Suc (sleeps w)\<rparr>"
    using d by simp
  have G: "\<not> device_open (fire_timer (consume g ns (From_data_queue (ErrorMsg ''device_disconnected'')))
        (length (timers g)) t_now)"
    "last_pdo (fire_timer (consume g ns (From_data_queue (ErrorMsg ''device_disconnected'')))
        (length (timers g)) t_now) = None"
    "last_rdo (fire_timer (consume g ns (From_data_queue (ErrorMsg ''device_disconnected'')))
        (length (timers g)) t_now) = None"
    by (simp_all only: f handle_device_disconnect_fields not_False_eq_True)
  show ?thesis
    using A D G consume_disconnected[of g ns] by blast
qed

theorem read_error_sentinel_witness:
  "items (data_queue (loop_body worker0 (error_tick ''HID Read Error''))) =
     [ErrorMsg ''device_disconnected''] \<and>
   exited (loop_body worker0 (error_tick ''HID Read Error'')) \<and>
   loop_body worker0 (error_tick ''timeout'') = worker0\<lparr>sleeps := 1\<rparr>"
  using read_error_sentinel [where t = "error_tick ''HID Read Error''" and e = "''HID Read Error''"
      and w = worker0]
    read_error_sentinel [where t = "error_tick ''timeout''" and e = "''timeout''" and w = worker0]
    lower_read_error lower_timeout
  by (simp add: sample_defs put_nowait_or_pass_def put_nowait_def full_def)

section \<open>Properties of the owning process\<close>

lemmas gui_defs = on_pd_data_def on_iv_data_def on_error_def confirm_connection_def
  add_data_item_def set_status_def after_def append_marker_event_def append_plot_point_def
  deque_append_def Let_def

subsection \<open>Markers before the first sample\<close>

lemma confirm_connection_plot:
  "plot_start_time (confirm_connection g) = plot_start_time g"
  "marker_events (confirm_connection g) = marker_events g"
  by (simp_all add: confirm_connection_def Let_def set_status_def)

lemma add_data_item_plot:
  "plot_start_time (add_data_item g ns sop rv ppr pdr mt d ts tsec force) = plot_start_time g"
  "marker_events (add_data_item g ns sop rv ppr pdr mt d ts tsec force) = marker_events g"
  by (simp_all add: add_data_item_def Let_def set_status_def)

lemma append_marker_event_unset:
  "plot_start_time g = None \<Longrightarrow> append_marker_event g t_sec kind = g"
  by (simp add: append_marker_event_def)

lemma on_pd_data_unset:
  assumes "plot_start_time g = None"
  shows "marker_events (on_pd_data g ns d) = marker_events g"
    and "plot_start_time (on_pd_data g ns d) = None"
proof -
  let ?g2 = "add_data_item (confirm_connection g) ns (pd_sop d) (pd_rev d) (pd_ppr d) (pd_pdr d)
                 (pd_msg_type d) (pd_pkg_data d) (Some (pd_timestamp d)) (Some (pd_time_sec d))
                 False"
  have p: "plot_start_time ?g2 = None" "marker_events ?g2 = marker_events g"
    using assms by (simp_all add: add_data_item_plot confirm_connection_plot)
  show "marker_events (on_pd_data g ns d) = marker_events g"
    using p by (simp add: on_pd_data_def Let_def append_marker_event_unset)
  show "plot_start_time (on_pd_data g ns d) = None"
    using p by (simp add: on_pd_data_def Let_def append_marker_event_unset)
qed

text \<open>
  Claim C10. While the relative-time baseline is unset, recording a marker changes nothing;
  so a capability or request event the consumer processes before the first telemetry
  sample leaves the marker log as it was.
\<close>

theorem marker_without_baseline_is_dropped:
  "plot_start_time g = None \<longrightarrow>
     append_marker_event g t_sec kind = g \<and>
     marker_events (on_pd_data g ns d) = marker_events g"
  by (simp add: append_marker_event_unset on_pd_data_unset)

theorem marker_without_baseline_is_dropped_witness:
  "marker_events (on_pd_data (init_gui\<lparr>is_paused := False\<rparr>) ''12:00:00.000'' sample_pd_data) = [] \<and>
   last_pdo (on_pd_data (init_gui\<lparr>is_paused := False\<rparr>) ''12:00:00.000'' sample_pd_data)
     = Some (Pd sample_pd) \<and>
   length (data_list (on_pd_data (init_gui\<lparr>is_paused := False\<rparr>) ''12:00:00.000'' sample_pd_data)) = 1 \<and>
   marker_events (on_pd_data (init_gui\<lparr>is_paused := False, plot_start_time := Some 3\<rparr>)
     ''12:00:00.000'' sample_pd_data) = [(2, ''pdo'')]"
  using marker_without_baseline_is_dropped [where g = "init_gui\<lparr>is_paused := False\<rparr>" and ns = "''12:00:00.000''"
      and d = sample_pd_data]
  by (simp add: init_gui_def sample_pd_data_def gui_defs)

subsection \<open>Reset and baseline of the rolling buffer\<close>

lemma deque_append_drop:
  "deque_append m (drop (length d - m) d) x = drop (Suc (length d) - m) (d @ [x])"
proof (cases "length d \<le> m")
  case True
  then show ?thesis by (simp add: deque_append_def Let_def)
next
  case False
  then have lt: "m < length d" by simp
  then have e: "Suc (length d) - m = Suc (length d - m)"
    by arith
  show ?thesis using lt by (simp add: deque_append_def Let_def e)
qed

lemma append_plot_point_set:
  "plot_start_time g = Some b \<Longrightarrow>
   append_plot_point g t_sec v i =
     g\<lparr>plot_times := deque_append 60000 (plot_times g) (t_sec - b),
       plot_voltage := deque_append 60000 (plot_voltage g) v,
       plot_current := deque_append 60000 (plot_current g) i\<rparr>"
  by (simp add: append_plot_point_def Let_def)

lemma append_plot_point_unset:
  "plot_start_time g = None \<Longrightarrow>
   append_plot_point g t_sec v i =
     g\<lparr>plot_start_time := Some t_sec,
       plot_times := deque_append 60000 (plot_times g) 0,
       plot_voltage := deque_append 60000 (plot_voltage g) v,
       plot_current := deque_append 60000 (plot_current g) i\<rparr>"
  by (simp add: append_plot_point_def Let_def)

lemma append_plot_points_set:
  "plot_start_time g = Some b \<Longrightarrow> plot_times g = drop (length ys - 60000) ys \<Longrightarrow>
   plot_start_time (append_plot_points g ps) = Some b \<and>
   plot_times (append_plot_points g ps) =
     drop (length ys + length ps - 60000) (ys @ map (\<lambda>p. fst p - b) ps)"
proof (induction ps arbitrary: g ys)
  case Nil
  then show ?case by simp
next
  case (Cons p ps)
  obtain t v i where p: "p = (t, v, i)" by (cases p)
  let ?g = "append_plot_point g t v i"
  have s: "plot_start_time ?g = Some b"
    using Cons.prems by (simp add: append_plot_point_set)
  have pt: "plot_times ?g = drop (length (ys @ [t - b]) - 60000) (ys @ [t - b])"
    using Cons.prems by (simp add: append_plot_point_set deque_append_drop)
  show ?case using Cons.IH[OF s pt] by (simp add: p)
qed

text \<open>
  Claim C7. A reset empties the time, voltage and current buffers and the marker log and
  clears the baseline. The first sample appended after it sets the baseline to its own
  capture time and is stored at relative time 0; the baseline then stays, and the buffer
  holds, for the most recent 60000 samples, the capture time minus that baseline.
\<close>

theorem reset_rearms_baseline:
  "plot_times (reset_plot g) = [] \<and> plot_voltage (reset_plot g) = [] \<and>
   plot_current (reset_plot g) = [] \<and> marker_events (reset_plot g) = [] \<and>
   plot_start_time (reset_plot g) = None \<and>
   plot_start_time (append_plot_point (reset_plot g) t0 v0 i0) = Some t0 \<and>
   plot_times (append_plot_point (reset_plot g) t0 v0 i0) = [0] \<and>
   plot_start_time (append_plot_points (reset_plot g) ((t0, v0, i0) # rest)) = Some t0 \<and>
   plot_times (append_plot_points (reset_plot g) ((t0, v0, i0) # rest)) =
     drop (Suc (length rest) - 60000) (map (\<lambda>p. fst p - t0) ((t0, v0, i0) # rest))"
proof -
  have r: "plot_times (reset_plot g) = []" "plot_voltage (reset_plot g) = []"
    "plot_current (reset_plot g) = []" "marker_events (reset_plot g) = []"
    "plot_start_time (reset_plot g) = None"
    by (simp_all add: reset_plot_def)
  let ?g1 = "append_plot_point (reset_plot g) t0 v0 i0"
  have s: "plot_start_time ?g1 = Some t0" and pt: "plot_times ?g1 = [0]"
    using r by (simp_all add: append_plot_point_unset deque_append_def)
  have pt': "plot_times ?g1 = drop (length [0::real] - 60000) [0]" using pt by simp
  have "plot_start_time (append_plot_points ?g1 rest) = Some t0 \<and>
        plot_times (append_plot_points ?g1 rest) =
          drop (length [0::real] + length rest - 60000) ([0] @ map (\<lambda>p. fst p - t0) rest)"
    by (rule append_plot_points_set[OF s pt'])
  then have m: "plot_start_time (append_plot_points (reset_plot g) ((t0, v0, i0) # rest)) = Some t0"
    "plot_times (append_plot_points (reset_plot g) ((t0, v0, i0) # rest)) =
     drop (Suc (length rest) - 60000) (map (\<lambda>p. fst p - t0) ((t0, v0, i0) # rest))"
    by simp_all
  show ?thesis using r s pt m by blast
qed

theorem reset_rearms_baseline_witness:
  "plot_times (append_plot_points init_gui [(100, 5, 1), (101, 6, 1)]) = [0, 1] \<and>
   plot_times (reset_plot (append_plot_points init_gui [(100, 5, 1), (101, 6, 1)])) = [] \<and>
   plot_times (append_plot_points
      (reset_plot (append_plot_points init_gui [(100, 5, 1), (101, 6, 1)]))
      [(250, 9, 2), (250.5, 9, 2)]) = [0, 0.5]"
  using reset_rearms_baseline [where g = "append_plot_points init_gui [(100, 5, 1), (101, 6, 1)]"
      and ?t0.0 = 250 and ?v0.0 = 9 and ?i0.0 = 2 and rest = "[(250.5, 9, 2)]"]
  by (simp add: init_gui_def reset_plot_def append_plot_point_def deque_append_def Let_def)

subsection \<open>Event log indices\<close>

lemma well_indexed_Nil: "well_indexed []"
  by (simp add: well_indexed_def)

lemma well_indexed_snoc:
  "well_indexed dl \<Longrightarrow> item_index x = int (length dl) + 1 \<Longrightarrow> well_indexed (dl @ [x])"
  by (simp add: well_indexed_def)

lemma add_data_item_indices:
  "map item_index (data_list (add_data_item g ns sop rv ppr pdr mt d ts tsec force)) =
     (if \<not> force \<and> is_paused g then map item_index (data_list g)
      else map item_index (data_list g) @ [int (length (data_list g)) + 1])"
  by (simp add: add_data_item_def Let_def set_status_def)

lemma add_data_item_well_indexed:
  "well_indexed (data_list g) \<Longrightarrow>
   well_indexed (data_list (add_data_item g ns sop rv ppr pdr mt d ts tsec force))"
  by (simp add: add_data_item_def Let_def set_status_def well_indexed_snoc)

lemma data_list_basic:
  "data_list (set_status g a b) = data_list g"
  "data_list (after g ms f) = data_list g"
  "data_list (reset_plot g) = data_list g"
  "data_list (append_plot_point g t v i) = data_list g"
  "data_list (append_marker_event g t kind) = data_list g"
  "data_list (confirm_connection g) = data_list g"
  "data_list (update_treeview g) = data_list g"
  "data_list (stop_collection_process g) = data_list g"
  "data_list (reset_iv_info g) = data_list g"
  "data_list (start_data_thread_if_needed g) = data_list g"
  "data_list (on_error g e) = data_list g"
  "data_list (delayed_update_treeview g t) = data_list g"
  "data_list (clear_list g) = []"
  by (simp_all add: set_status_def after_def reset_plot_def append_plot_point_def
      append_marker_event_def confirm_connection_def update_treeview_def
      stop_collection_process_def reset_iv_info_def start_data_thread_if_needed_def
      on_error_def delayed_update_treeview_def clear_list_def Let_def split: option.splits)

lemma data_list_handlers:
  "data_list (handle_device_disconnect g) = data_list g"
  "data_list (handle_connection_failed g e) = data_list g"
  "data_list (on_iv_data g d) = data_list g"
  by (simp_all add: handle_device_disconnect_def handle_connection_failed_def on_iv_data_def
      Let_def data_list_basic)

lemma data_list_run_job: "data_list (run_job g t j) = data_list g"
  by (cases j) (simp_all add: data_list_basic data_list_handlers)

lemma data_list_fire_timer: "data_list (fire_timer g k t) = data_list g"
  by (simp add: fire_timer_def data_list_run_job)

lemma data_list_refresh: "data_list (snd (refresh_iteration s t)) = data_list (snd s)"
  by (simp add: refresh_iteration_def Let_def data_list_basic)

lemma data_list_connect:
  "data_list (connect_device g c) = data_list g \<or> data_list (connect_device g c) = []"
  by (simp add: connect_device_def Let_def data_list_basic)

lemma data_list_pause:
  "data_list (pause_collection g c) = data_list g \<or> data_list (pause_collection g c) = []"
  by (simp add: pause_collection_def Let_def data_list_basic)

lemma on_pd_data_well_indexed:
  "well_indexed (data_list g) \<Longrightarrow> well_indexed (data_list (on_pd_data g ns d))"
proof -
  assume w: "well_indexed (data_list g)"
  have "well_indexed (data_list (add_data_item (confirm_connection g) ns (pd_sop d) (pd_rev d)
      (pd_ppr d) (pd_pdr d) (pd_msg_type d) (pd_pkg_data d) (Some (pd_timestamp d))
      (Some (pd_time_sec d)) False))"
    by (rule add_data_item_well_indexed) (simp add: data_list_basic w)
  then show ?thesis by (simp add: on_pd_data_def Let_def data_list_basic)
qed

lemma consume_well_indexed:
  "well_indexed (data_list g) \<Longrightarrow> well_indexed (data_list (consume g ns c))"
  by (cases "(g, ns, c)" rule: consume.cases)
    (simp_all add: data_list_basic data_list_handlers on_pd_data_well_indexed)

lemma step_well_indexed:
  assumes w: "well_indexed (data_list (snd s))"
  shows "well_indexed (data_list (snd (step s e)))"
proof (cases e)
  case (Connect c)
  then show ?thesis using w data_list_connect[of "snd s" c] by (auto simp: well_indexed_Nil)
next
  case (Pause c)
  then show ?thesis using w data_list_pause[of "snd s" c] by (auto simp: well_indexed_Nil)
qed (use w in \<open>simp_all add: data_list_refresh data_list_fire_timer consume_well_indexed
      data_list_basic well_indexed_Nil\<close>)

lemma run_well_indexed:
  "well_indexed (data_list (snd s)) \<Longrightarrow> well_indexed (data_list (snd (run s es)))"
  by (induction es arbitrary: s) (simp_all add: step_well_indexed)

text \<open>
  Claim C1. An appended item gets the index "previous log length plus 1" (a suppressed call
  appends nothing), and after any sequence of operations of the owning process, starting
  from the empty log, the indices in the log are exactly 1, 2, 3, ... in order. The items
  the consumer sees are whatever the channel delivered; items dropped at the channel never
  reach the log and leave no gap.
\<close>

theorem log_indices_are_consecutive:
  "map item_index (data_list (add_data_item g ns sop rv ppr pdr mt d ts tsec force)) =
     (if \<not> force \<and> is_paused g then map item_index (data_list g)
      else map item_index (data_list g) @ [int (length (data_list g)) + 1]) \<and>
   map item_index (data_list (snd (run (n, init_gui) es))) =
     map int [1..<Suc (length (data_list (snd (run (n, init_gui) es))))]"
proof -
  have "well_indexed (data_list (snd (n, init_gui)))"
    by (simp add: init_gui_def well_indexed_Nil)
  then have "well_indexed (data_list (snd (run (n, init_gui) es)))"
    by (rule run_well_indexed)
  then show ?thesis by (simp add: add_data_item_indices well_indexed_def)
qed


lemmas op_defs = connect_device_def pause_collection_def clear_list_def update_treeview_def
  start_data_thread_if_needed_def stop_collection_process_def reset_iv_info_def reset_plot_def
  refresh_iteration_def delayed_update_treeview_def fire_timer_def min_interval_def py_int_def

theorem log_indices_are_consecutive_witness:
  "map item_index (data_list (snd (run (0, init_gui)
      [Connect False, Pause False,
       Consume ''12:00:00.001'' (From_data_queue (PdMsg sample_pd_data)),
       Consume ''12:00:00.002'' (From_iv_queue sample_iv_data),
       Consume ''12:00:00.003'' (From_data_queue (PdMsg sample_pd_data)),
       Consume ''12:00:00.004'' (From_data_queue (PdMsg sample_pd_data))]))) = [1, 2, 3]"
  using log_indices_are_consecutive [where n = 0 and es = "[Connect False, Pause False,
       Consume ''12:00:00.001'' (From_data_queue (PdMsg sample_pd_data)),
       Consume ''12:00:00.002'' (From_iv_queue sample_iv_data),
       Consume ''12:00:00.003'' (From_data_queue (PdMsg sample_pd_data)),
       Consume ''12:00:00.004'' (From_data_queue (PdMsg sample_pd_data))]"]
  by (simp add: init_gui_def sample_pd_data_def sample_iv_data_def gui_defs op_defs)

subsection \<open>The passes of the consumer\<close>

text \<open>
  A pass over either queue processes a prefix of the pending items one by one, so what
  holds for every sequence of consumed items holds for the consumer loop.
\<close>

lemma drain_iv_queue_consume_all:
  "drain_iv_queue g ds = consume_all g ns (map From_iv_queue ds)"
  by (induction ds arbitrary: g) simp_all

lemma drain_data_queue_consume_all:
  "\<exists>k \<le> length ms. drain_data_queue g ns ms =
     (consume_all g ns (map From_data_queue (take k ms)), drop k ms)"
proof (induction g ns ms rule: drain_data_queue.induct)
  case (1 g ns)
  show ?case by simp
next
  case (2 g ns err ms)
  have "drain_data_queue g ns (ErrorMsg err # ms) =
     (consume_all g ns (map From_data_queue (take 1 (ErrorMsg err # ms))),
      drop 1 (ErrorMsg err # ms))"
    by simp
  then show ?case by (intro exI[of _ 1]) simp
next
  case (3 g ns d ms)
  then obtain k where k: "k \<le> length ms"
    "drain_data_queue (on_pd_data g ns d) ns ms =
       (consume_all (on_pd_data g ns d) ns (map From_data_queue (take k ms)), drop k ms)"
    by blast
  then show ?case by (intro exI[of _ "Suc k"]) simp
qed

subsection \<open>Connection acknowledgement\<close>

lemma consume_all_append:
  "consume_all g ns (xs @ ys) = consume_all (consume_all g ns xs) ns ys"
  by (induction xs arbitrary: g) simp_all

lemma connection_acks_set_status:
  "connection_acks (set_status g a b) =
     connection_acks g + (if (a, b) = (Text ''Device Connected'', ''ok'') then 1 else 0)"
  by (simp add: connection_acks_def set_status_def)

lemma confirm_connection_idle:
  "\<not> awaiting_connection_ack g \<Longrightarrow> confirm_connection g = g"
  by (simp add: confirm_connection_def)

lemma confirm_connection_fires:
  assumes "device_open g" "awaiting_connection_ack g"
  shows "\<not> awaiting_connection_ack (confirm_connection g)"
    and "connection_acks (confirm_connection g) = Suc (connection_acks g)"
    and "device_open (confirm_connection g)"
    and "autostart_after_connect g \<Longrightarrow> \<not> is_paused (confirm_connection g)"
    and "autostart_after_connect g \<Longrightarrow> \<not> autostart_after_connect (confirm_connection g)"
    and "autostart_after_connect g \<Longrightarrow> pause_flag g \<noteq> None \<Longrightarrow>
           pause_flag (confirm_connection g) = Some 0"
    and "\<not> autostart_after_connect g \<Longrightarrow> is_paused (confirm_connection g) = is_paused g"
    and "\<not> autostart_after_connect g \<Longrightarrow> pause_flag (confirm_connection g) = pause_flag g"
  using assms
  by (simp_all add: confirm_connection_def Let_def set_status_def connection_acks_def)

text \<open>What the steps after the acknowledgement block leave alone.\<close>

lemma add_data_item_conn:
  "awaiting_connection_ack (add_data_item g ns sop rv ppr pdr mt d ts tsec force) =
     awaiting_connection_ack g"
  "device_open (add_data_item g ns sop rv ppr pdr mt d ts tsec force) = device_open g"
  "connection_acks (add_data_item g ns sop rv ppr pdr mt d ts tsec force) = connection_acks g"
  "is_paused (add_data_item g ns sop rv ppr pdr mt d ts tsec force) = is_paused g"
  "pause_flag (add_data_item g ns sop rv ppr pdr mt d ts tsec force) = pause_flag g"
  "autostart_after_connect (add_data_item g ns sop rv ppr pdr mt d ts tsec force) =
     autostart_after_connect g"
  by (simp_all add: add_data_item_def Let_def set_status_def connection_acks_def)

lemma append_marker_event_conn:
  "awaiting_connection_ack (append_marker_event g t kind) = awaiting_connection_ack g"
  "device_open (append_marker_event g t kind) = device_open g"
  "connection_acks (append_marker_event g t kind) = connection_acks g"
  "is_paused (append_marker_event g t kind) = is_paused g"
  "pause_flag (append_marker_event g t kind) = pause_flag g"
  "autostart_after_connect (append_marker_event g t kind) = autostart_after_connect g"
  by (simp_all add: append_marker_event_def connection_acks_def split: option.splits)

lemma append_plot_point_conn:
  "awaiting_connection_ack (append_plot_point g t v i) = awaiting_connection_ack g"
  "device_open (append_plot_point g t v i) = device_open g"
  "connection_acks (append_plot_point g t v i) = connection_acks g"
  "is_paused (append_plot_point g t v i) = is_paused g"
  "pause_flag (append_plot_point g t v i) = pause_flag g"
  "autostart_after_connect (append_plot_point g t v i) = autostart_after_connect g"
  by (simp_all add: append_plot_point_def Let_def connection_acks_def)

lemma on_error_conn:
  "awaiting_connection_ack (on_error g e) = awaiting_connection_ack g"
  "device_open (on_error g e) = device_open g"
  "connection_acks (on_error g e) = connection_acks g"
  "is_paused (on_error g e) = is_paused g"
  "pause_flag (on_error g e) = pause_flag g"
  "autostart_after_connect (on_error g e) = autostart_after_connect g"
  by (simp_all add: on_error_def after_def connection_acks_def)

lemma connection_acks_update:
  "connection_acks (g\<lparr>last_pdo := x\<rparr>) = connection_acks g"
  "connection_acks (g\<lparr>last_rdo := x\<rparr>) = connection_acks g"
  "connection_acks (g\<lparr>iv_info_cached := y\<rparr>) = connection_acks g"
  by (simp_all add: connection_acks_def)

lemma on_pd_data_conn: "same_conn (confirm_connection g) (on_pd_data g ns d)"
  by (simp add: same_conn_def on_pd_data_def Let_def add_data_item_conn append_marker_event_conn
      connection_acks_update)

lemma on_iv_data_conn: "same_conn (confirm_connection g) (on_iv_data g d)"
  by (simp add: same_conn_def on_iv_data_def Let_def append_plot_point_conn
      connection_acks_update)

lemma consume_conn:
  "\<not> is_error c \<Longrightarrow> same_conn (confirm_connection g) (consume g ns c)"
  by (cases "(g, ns, c)" rule: consume.cases) (simp_all add: on_pd_data_conn on_iv_data_conn)

lemma consume_error_conn:
  "is_error c \<Longrightarrow> same_conn g (consume g ns c)"
  by (cases "(g, ns, c)" rule: consume.cases) (simp_all add: same_conn_def on_error_conn)

lemma same_conn_trans: "same_conn a b \<Longrightarrow> same_conn b c \<Longrightarrow> same_conn a c"
  by (simp add: same_conn_def)

lemma same_conn_refl: "same_conn a a"
  by (simp add: same_conn_def)

lemma consume_idle:
  "\<not> awaiting_connection_ack g \<Longrightarrow> same_conn g (consume g ns c)"
  using consume_conn[of c g ns] consume_error_conn[of c g ns]
  by (cases "is_error c") (simp_all add: confirm_connection_idle)

lemma consume_all_idle:
  "\<not> awaiting_connection_ack g \<Longrightarrow> same_conn g (consume_all g ns cs)"
proof (induction cs arbitrary: g)
  case Nil
  show ?case by (simp add: same_conn_refl)
next
  case (Cons c cs)
  have s: "same_conn g (consume g ns c)" using Cons.prems by (rule consume_idle)
  then have "\<not> awaiting_connection_ack (consume g ns c)"
    using Cons.prems by (simp add: same_conn_def)
  then have "same_conn (consume g ns c) (consume_all (consume g ns c) ns cs)"
    by (rule Cons.IH)
  with s show ?case by (simp add: same_conn_trans)
qed

lemma consume_all_errors:
  "list_all is_error pre \<Longrightarrow> same_conn g (consume_all g ns pre)"
proof (induction pre arbitrary: g)
  case Nil
  show ?case by (simp add: same_conn_refl)
next
  case (Cons c cs)
  then have "same_conn g (consume g ns c)"
    "same_conn (consume g ns c) (consume_all (consume g ns c) ns cs)"
    by (simp_all add: consume_error_conn)
  then show ?case by (simp add: same_conn_trans)
qed

text \<open>
  Claim C3. With the device marked open and the acknowledgement awaited, error sentinels
  leave the awaiting state alone; the first item that is not an error, from either queue,
  clears it, writes the acknowledgement to the status bar once and, if auto-start was
  requested, starts collection (unpaused, shared pause flag 0, request cleared). Whatever is
  consumed afterwards, the state stays cleared and the acknowledgement is not written again.
\<close>

theorem first_item_acknowledges_once:
  "device_open g \<and> awaiting_connection_ack g \<and> list_all is_error pre \<and> \<not> is_error c \<longrightarrow>
     awaiting_connection_ack (consume_all g ns pre) \<and>
     connection_acks (consume_all g ns pre) = connection_acks g \<and>
     \<not> awaiting_connection_ack (consume_all g ns (pre @ [c])) \<and>
     connection_acks (consume_all g ns (pre @ [c])) = Suc (connection_acks g) \<and>
     (autostart_after_connect g \<longrightarrow>
        \<not> is_paused (consume_all g ns (pre @ [c])) \<and>
        \<not> autostart_after_connect (consume_all g ns (pre @ [c])) \<and>
        (pause_flag g \<noteq> None \<longrightarrow> pause_flag (consume_all g ns (pre @ [c])) = Some 0)) \<and>
     (\<not> autostart_after_connect g \<longrightarrow>
        is_paused (consume_all g ns (pre @ [c])) = is_paused g \<and>
        pause_flag (consume_all g ns (pre @ [c])) = pause_flag g) \<and>
     \<not> awaiting_connection_ack (consume_all g ns (pre @ c # post)) \<and>
     connection_acks (consume_all g ns (pre @ c # post)) = Suc (connection_acks g)"
proof (intro impI, elim conjE)
  assume o: "device_open g" and a: "awaiting_connection_ack g"
    and e: "list_all is_error pre" and c: "\<not> is_error c"
  let ?g0 = "consume_all g ns pre"
  let ?g1 = "consume ?g0 ns c"
  let ?g2 = "consume_all ?g1 ns post"
  have s0: "same_conn g ?g0" using e by (rule consume_all_errors)
  then have o0: "device_open ?g0" and a0: "awaiting_connection_ack ?g0"
    using o a by (simp_all add: same_conn_def)
  note f = confirm_connection_fires[OF o0 a0]
  have s1: "same_conn (confirm_connection ?g0) ?g1" using c by (rule consume_conn)
  have a1: "\<not> awaiting_connection_ack ?g1" using s1 f(1) by (simp add: same_conn_def)
  have s2: "same_conn ?g1 ?g2" using a1 by (rule consume_all_idle)
  have e1: "consume_all g ns (pre @ [c]) = ?g1" by (simp add: consume_all_append)
  have e2: "consume_all g ns (pre @ c # post) = ?g2" by (simp add: consume_all_append)
  show "awaiting_connection_ack (consume_all g ns pre) \<and>
     connection_acks (consume_all g ns pre) = connection_acks g \<and>
     \<not> awaiting_connection_ack (consume_all g ns (pre @ [c])) \<and>
     connection_acks (consume_all g ns (pre @ [c])) = Suc (connection_acks g) \<and>
     (autostart_after_connect g \<longrightarrow>
        \<not> is_paused (consume_all g ns (pre @ [c])) \<and>
        \<not> autostart_after_connect (consume_all g ns (pre @ [c])) \<and>
        (pause_flag g \<noteq> None \<longrightarrow> pause_flag (consume_all g ns (pre @ [c])) = Some 0)) \<and>
     (\<not> autostart_after_connect g \<longrightarrow>
        is_paused (consume_all g ns (pre @ [c])) = is_paused g \<and>
        pause_flag (consume_all g ns (pre @ [c])) = pause_flag g) \<and>
     \<not> awaiting_connection_ack (consume_all g ns (pre @ c # post)) \<and>
     connection_acks (consume_all g ns (pre @ c # post)) = Suc (connection_acks g)"
    unfolding e1 e2 using s0 s1 s2 f a0 by (auto simp: same_conn_def)
qed

theorem first_item_acknowledges_once_witness:
  "awaiting_connection_ack connected_gui \<and> device_open connected_gui \<and>
   connection_acks connected_gui = 0 \<and>
   \<not> awaiting_connection_ack (consume_all connected_gui ''12:00:00.000''
       [From_iv_queue sample_iv_data]) \<and>
   connection_acks (consume_all connected_gui ''12:00:00.000''
       [From_iv_queue sample_iv_data, From_data_queue (PdMsg sample_pd_data),
        From_iv_queue sample_iv_data]) = 1 \<and>
   \<not> is_paused (consume_all (pause_collection connected_gui False) ''12:00:00.000''
       [From_iv_queue sample_iv_data]) \<and>
   pause_flag (consume_all (pause_collection connected_gui False) ''12:00:00.000''
       [From_iv_queue sample_iv_data]) = Some 0"
  using first_item_acknowledges_once [where g = connected_gui and pre = "[]" and c = "From_iv_queue sample_iv_data"
      and post = "[From_data_queue (PdMsg sample_pd_data), From_iv_queue sample_iv_data]"
      and ns = "''12:00:00.000''"]
    first_item_acknowledges_once [where g = "pause_collection connected_gui False" and pre = "[]"
      and c = "From_iv_queue sample_iv_data" and post = "[]" and ns = "''12:00:00.000''"]
  by (simp add: connected_gui_def init_gui_def sample_pd_data_def sample_iv_data_def gui_defs
      op_defs connection_acks_def)

subsection \<open>Refresh scheduling\<close>

lemma sched_basic:
  "timers (set_status g a b) = timers g"
  "pending_treeview_update (set_status g a b) = pending_treeview_update g"
  "timers (reset_plot g) = timers g"
  "pending_treeview_update (reset_plot g) = pending_treeview_update g"
  "timers (append_plot_point g t v i) = timers g"
  "pending_treeview_update (append_plot_point g t v i) = pending_treeview_update g"
  "timers (append_marker_event g t kind) = timers g"
  "pending_treeview_update (append_marker_event g t kind) = pending_treeview_update g"
  "timers (confirm_connection g) = timers g"
  "pending_treeview_update (confirm_connection g) = pending_treeview_update g"
  "timers (update_treeview g) = timers g"
  "pending_treeview_update (update_treeview g) = pending_treeview_update g"
  "timers (stop_collection_process g) = timers g"
  "pending_treeview_update (stop_collection_process g) = pending_treeview_update g"
  "timers (reset_iv_info g) = timers g"
  "pending_treeview_update (reset_iv_info g) = pending_treeview_update g"
  "timers (start_data_thread_if_needed g) = timers g"
  "pending_treeview_update (start_data_thread_if_needed g) = pending_treeview_update g"
  "timers (clear_list g) = timers g"
  "pending_treeview_update (clear_list g) = pending_treeview_update g"
  "timers (add_data_item g ns sop rv ppr pdr mt d ts tsec force) = timers g"
  "pending_treeview_update (add_data_item g ns sop rv ppr pdr mt d ts tsec force) =
     pending_treeview_update g"
  by (simp_all add: set_status_def reset_plot_def append_plot_point_def
      append_marker_event_def confirm_connection_def update_treeview_def
      stop_collection_process_def reset_iv_info_def start_data_thread_if_needed_def
      clear_list_def add_data_item_def Let_def split: option.splits)

lemma deferred_pending_cong:
  "timers g' = timers g \<Longrightarrow> deferred_pending g' = deferred_pending g"
  by (simp add: deferred_pending_def)

lemma sched_ok_cong:
  "timers g' = timers g \<Longrightarrow> pending_treeview_update g' = pending_treeview_update g \<Longrightarrow>
   sched_ok g' = sched_ok g"
  by (simp add: sched_ok_def deferred_pending_def)

lemma sched_handlers:
  "timers (handle_device_disconnect g) = timers g"
  "pending_treeview_update (handle_device_disconnect g) = pending_treeview_update g"
  "timers (handle_connection_failed g e) = timers g"
  "pending_treeview_update (handle_connection_failed g e) = pending_treeview_update g"
  "timers (on_iv_data g d) = timers g"
  "pending_treeview_update (on_iv_data g d) = pending_treeview_update g"
  "timers (on_pd_data g ns pd) = timers g"
  "pending_treeview_update (on_pd_data g ns pd) = pending_treeview_update g"
  "timers (connect_device g c) = timers g"
  "pending_treeview_update (connect_device g c) = pending_treeview_update g"
  "timers (pause_collection g c) = timers g"
  "pending_treeview_update (pause_collection g c) = pending_treeview_update g"
  by (simp_all add: handle_device_disconnect_def handle_connection_failed_def on_iv_data_def
      on_pd_data_def connect_device_def pause_collection_def Let_def sched_basic)

lemma on_error_sched: "sched_ok g \<Longrightarrow> sched_ok (on_error g e)"
  by (auto simp: on_error_def after_def sched_ok_def deferred_pending_def split: if_splits)

lemma consume_sched: "sched_ok g \<Longrightarrow> sched_ok (consume g ns c)"
  by (cases "(g, ns, c)" rule: consume.cases)
    (simp_all add: on_error_sched sched_ok_cong[OF sched_handlers(5) sched_handlers(6)]
      sched_ok_cong[OF sched_handlers(7) sched_handlers(8)])

lemma refresh_sched: "sched_ok (snd s) \<Longrightarrow> sched_ok (snd (refresh_iteration s t))"
  by (auto simp: refresh_iteration_def Let_def after_def sched_ok_def deferred_pending_def
      split: if_splits)

lemma filter_remove_nth:
  "k < length xs \<Longrightarrow>
   length (filter P (take k xs @ drop (Suc k) xs)) + (if P (xs ! k) then 1 else 0) =
     length (filter P xs)"
proof -
  assume k: "k < length xs"
  have "length (filter P xs) = length (filter P (take k xs @ xs ! k # drop (Suc k) xs))"
    using id_take_nth_drop[OF k] by simp
  then show ?thesis by simp
qed

lemma fire_sched:
  assumes ok: "sched_ok g"
  shows "sched_ok (fire_timer g k t)"
proof (cases "k < length (timers g)")
  case False
  then show ?thesis using ok by (simp add: fire_timer_def)
next
  case True
  let ?g' = "g\<lparr>timers := take k (timers g) @ drop (Suc k) (timers g)\<rparr>"
  let ?j = "snd (timers g ! k)"
  have f: "fire_timer g k t = run_job ?g' t ?j" using True by (simp add: fire_timer_def)
  have c: "deferred_pending ?g' + (if ?j = Delayed_update_treeview then 1 else 0) =
      deferred_pending g"
    using filter_remove_nth[OF True, of "\<lambda>x. snd x = Delayed_update_treeview"]
    by (simp add: deferred_pending_def)
  show ?thesis
  proof (cases ?j)
    case Delayed_update_treeview
    with c ok have p: "pending_treeview_update g" and z: "deferred_pending ?g' = 0"
      by (auto simp: sched_ok_def split: if_splits)
    have "sched_ok (delayed_update_treeview ?g' t)"
      using p z by (simp add: delayed_update_treeview_def sched_ok_def deferred_pending_def
          update_treeview_def)
    then show ?thesis by (simp add: f Delayed_update_treeview)
  next
    case Handle_device_disconnect
    with c ok have "sched_ok ?g'" by (simp add: sched_ok_def)
    then show ?thesis
      by (simp add: f Handle_device_disconnect
          sched_ok_cong[OF sched_handlers(1) sched_handlers(2)])
  next
    case (Handle_connection_failed e)
    with c ok have "sched_ok ?g'" by (simp add: sched_ok_def)
    then show ?thesis
      by (simp add: f Handle_connection_failed
          sched_ok_cong[OF sched_handlers(3) sched_handlers(4)])
  next
    case Safe_update_treeview
    with c ok have "sched_ok ?g'" by (simp add: sched_ok_def)
    then show ?thesis
      by (simp add: f Safe_update_treeview sched_ok_cong[OF sched_basic(11) sched_basic(12)])
  qed
qed

lemma step_sched:
  assumes ok: "sched_ok (snd s)"
  shows "sched_ok (snd (step s e))"
proof (cases e)
  case (Refresh t)
  then show ?thesis using ok by (simp add: refresh_sched)
next
  case (Fire k t)
  then show ?thesis using ok by (simp add: fire_sched)
next
  case (Consume ns c)
  then show ?thesis using ok by (simp add: consume_sched)
next
  case (Connect c)
  then show ?thesis using ok
    by (simp add: sched_ok_cong[OF sched_handlers(9) sched_handlers(10)])
next
  case (Pause c)
  then show ?thesis using ok
    by (simp add: sched_ok_cong[OF sched_handlers(11) sched_handlers(12)])
next
  case Clear
  then show ?thesis using ok by (simp add: sched_ok_cong[OF sched_basic(19) sched_basic(20)])
next
  case Reset_plot
  then show ?thesis using ok by (simp add: sched_ok_cong[OF sched_basic(3) sched_basic(4)])
qed

lemma run_sched: "sched_ok (snd s) \<Longrightarrow> sched_ok (snd (run s es))"
  by (induction es arbitrary: s) (simp_all add: step_sched)

lemma py_int_pos: "0 \<le> x \<Longrightarrow> py_int x = \<lfloor>x\<rfloor>"
  by (simp add: py_int_def)

lemma refresh_deferred:
  assumes "length (data_list g) \<noteq> last_data_count"
    and "t - last_treeview_update_time g < min_interval (length (data_list g))"
  shows "refresh_iteration (last_data_count, g) t =
     (if pending_treeview_update g then (last_data_count, g)
      else (last_data_count,
            g\<lparr>pending_treeview_update := True,
              timers := timers g @
                [(\<lfloor>(min_interval (length (data_list g)) - (t - last_treeview_update_time g)) * 1000\<rfloor>,
                  Delayed_update_treeview)]\<rparr>))"
proof -
  have "0 \<le> (min_interval (length (data_list g)) - (t - last_treeview_update_time g)) * 1000"
    using assms(2) by simp
  then have "py_int ((min_interval (length (data_list g)) - (t - last_treeview_update_time g)) * 1000)
      = \<lfloor>(min_interval (length (data_list g)) - (t - last_treeview_update_time g)) * 1000\<rfloor>"
    by (rule py_int_pos)
  then show ?thesis using assms by (simp add: refresh_iteration_def Let_def after_def)
qed

lemma refresh_immediate:
  assumes "length (data_list g) \<noteq> last_data_count"
    and "t - last_treeview_update_time g \<ge> min_interval (length (data_list g))"
  shows "refresh_iteration (last_data_count, g) t =
     (length (data_list g),
      g\<lparr>timers := timers g @ [(0, Safe_update_treeview)], last_treeview_update_time := t\<rparr>)"
  using assms by (simp add: refresh_iteration_def Let_def after_def)

text \<open>
  Claim C8. The minimum refresh interval is 0.1 s below 1000 events, 0.3 s below 5000, 0.5 s
  below 10000, 1 s below 20000 and 2 s from 20000 on. When the loop sees a changed count
  before the interval has elapsed, it schedules one deferred refresh for the remaining wait
  (in whole milliseconds, rounded down) and sets the pending flag, unless the flag is
  already set, in which case it does nothing. Over every interleaving of the owning
  process's operations, at most one deferred refresh is scheduled and not yet fired, and
  exactly when the flag is set.
\<close>

theorem refresh_interval_and_single_deferred:
  "(n < 1000 \<longrightarrow> min_interval n = 0.1) \<and>
   (1000 \<le> n \<and> n < 5000 \<longrightarrow> min_interval n = 0.3) \<and>
   (5000 \<le> n \<and> n < 10000 \<longrightarrow> min_interval n = 0.5) \<and>
   (10000 \<le> n \<and> n < 20000 \<longrightarrow> min_interval n = 1) \<and>
   (20000 \<le> n \<longrightarrow> min_interval n = 2) \<and>
   (length (data_list g) \<noteq> last_data_count \<and>
    t - last_treeview_update_time g < min_interval (length (data_list g)) \<longrightarrow>
      refresh_iteration (last_data_count, g) t =
        (if pending_treeview_update g then (last_data_count, g)
         else (last_data_count,
               g\<lparr>pending_treeview_update := True,
                 timers := timers g @
                   [(\<lfloor>(min_interval (length (data_list g)) - (t - last_treeview_update_time g))
                        * 1000\<rfloor>,
                     Delayed_update_treeview)]\<rparr>))) \<and>
   deferred_pending (snd (run (n0, init_gui) es)) =
     (if pending_treeview_update (snd (run (n0, init_gui) es)) then 1 else 0) \<and>
   deferred_pending (snd (run (n0, init_gui) es)) \<le> 1"
proof -
  have m: "(n < 1000 \<longrightarrow> min_interval n = 0.1) \<and>
   (1000 \<le> n \<and> n < 5000 \<longrightarrow> min_interval n = 0.3) \<and>
   (5000 \<le> n \<and> n < 10000 \<longrightarrow> min_interval n = 0.5) \<and>
   (10000 \<le> n \<and> n < 20000 \<longrightarrow> min_interval n = 1) \<and>
   (20000 \<le> n \<longrightarrow> min_interval n = 2)"
    by (simp add: min_interval_def)
  have "sched_ok (snd (n0, init_gui))"
    by (simp add: sched_ok_def deferred_pending_def init_gui_def)
  then have "sched_ok (snd (run (n0, init_gui) es))" by (rule run_sched)
  then have i: "deferred_pending (snd (run (n0, init_gui) es)) =
     (if pending_treeview_update (snd (run (n0, init_gui) es)) then 1 else 0)"
    by (simp add: sched_ok_def)
  then have j: "deferred_pending (snd (run (n0, init_gui) es)) \<le> 1" by simp
  show ?thesis using m i j refresh_deferred[of g last_data_count t] by blast
qed


lemma busy_state_fields:
  "fst busy_state = 1" "length (data_list (snd busy_state)) = 2"
  "last_treeview_update_time (snd busy_state) = 100"
  "\<not> pending_treeview_update (snd busy_state)"
  "timers (snd busy_state) = [(0, Safe_update_treeview)]"
  by (simp_all add: busy_state_def init_gui_def sample_pd_data_def gui_defs op_defs)

theorem refresh_interval_and_single_deferred_witness:
  "min_interval 50 = 0.1 \<and> min_interval 1000 = 0.3 \<and> min_interval 5000 = 0.5 \<and>
   min_interval 10000 = 1 \<and> min_interval 20000 = 2 \<and>
   timers (snd (refresh_iteration busy_state 100.04)) =
     [(0, Safe_update_treeview), (60, Delayed_update_treeview)] \<and>
   refresh_iteration (refresh_iteration busy_state 100.04) 100.06 =
     refresh_iteration busy_state 100.04 \<and>
   deferred_pending (snd (run busy_state [Refresh 100.04, Refresh 100.06])) = 1 \<and>
   deferred_pending (snd (run busy_state [Refresh 100.04, Refresh 100.06, Fire 1 100.1])) = 0"
proof -
  have m: "min_interval 50 = 0.1 \<and> min_interval 1000 = 0.3 \<and> min_interval 5000 = 0.5 \<and>
      min_interval 10000 = 1 \<and> min_interval 20000 = 2"
    using refresh_interval_and_single_deferred [where n = 50] refresh_interval_and_single_deferred [where n = 1000] refresh_interval_and_single_deferred [where n = 5000]
      refresh_interval_and_single_deferred [where n = 10000] refresh_interval_and_single_deferred [where n = 20000]
    by simp
  obtain l g where s: "busy_state = (l, g)" by (cases busy_state)
  have f: "l = 1" "length (data_list g) = 2" "last_treeview_update_time g = 100"
    "\<not> pending_treeview_update g" "timers g = [(0, Safe_update_treeview)]"
    using busy_state_fields by (simp_all add: s)
  have mi: "min_interval 2 = 0.1" by (simp add: min_interval_def)
  have r1: "refresh_iteration (l, g) 100.04 =
      (l, g\<lparr>pending_treeview_update := True,
            timers := [(0, Safe_update_treeview), (60, Delayed_update_treeview)]\<rparr>)"
    using refresh_interval_and_single_deferred [where g = g and last_data_count = l and t = "100.04"] f by (simp add: mi)
  let ?g1 = "g\<lparr>pending_treeview_update := True,
            timers := [(0, Safe_update_treeview), (60, Delayed_update_treeview)]\<rparr>"
  have r2: "refresh_iteration (l, ?g1) 100.06 = (l, ?g1)"
    using refresh_interval_and_single_deferred [where g = ?g1 and last_data_count = l and t = "100.06"] f by (simp add: mi)
  have d1: "deferred_pending ?g1 = 1" by (simp add: deferred_pending_def)
  have d2: "deferred_pending (fire_timer ?g1 1 100.1) = 0"
    by (simp add: deferred_pending_def fire_timer_def delayed_update_treeview_def
        update_treeview_def)
  show ?thesis using m r1 r2 d1 d2 by (simp add: s)
qed

end
